theory Spec2Isabelle
  imports Complex_Main
begin

section \<open>JavaScript values\<close>

text \<open>
  A JavaScript string is a sequence of UTF-16 code units; the en dash of the headsign
  pattern is the single unit 8211. \<open>ascii\<close> embeds an ASCII literal.
  A finite JavaScript number is modelled as a real (the rounding of doubles is outside
  the model); the three non-finite numbers are separate constructors. \<open>None\<close> at an
  option type stands for \<^verbatim>\<open>null\<close> and \<^verbatim>\<open>undefined\<close> alike.
\<close>

type_synonym js_string = "nat list"

definition ascii :: "string \<Rightarrow> js_string" where
  "ascii s = map of_char s"

datatype js_number = Num real | NaN | PosInf | NegInf

datatype js_error = JsError (err_name: js_string) (err_message: js_string)

section \<open>Configuration: \<^verbatim>\<open>createServer\<close>, validation of the options\<close>

text \<open>
  Each numeric option is \<open>None\<close> when the caller left it out (\<^verbatim>\<open>options.x == null\<close>)
  and otherwise the value of \<^verbatim>\<open>Number(options.x)\<close>.
\<close>

record options =
  opt_feedUrl :: "js_string option"
  opt_refreshIntervalMs :: "js_number option"
  opt_staleAfterMs :: "js_number option"
  opt_fetchTimeoutMs :: "js_number option"
  opt_maxBackoffMs :: "js_number option"

record config =
  feedUrl :: js_string
  refreshIntervalMs :: real
  staleAfterMs :: real
  fetchTimeoutMs :: real
  maxBackoffMs :: real

definition MIN_REFRESH_INTERVAL_MS :: real where
  "MIN_REFRESH_INTERVAL_MS = 5000"

definition MAX_BACKOFF_MULTIPLIER :: real where
  "MAX_BACKOFF_MULTIPLIER = 16"

text \<open>
  \<^verbatim>\<open>let x = options.x == null ? d : Number(options.x)\<close>
\<close>

definition or_default :: "js_number option \<Rightarrow> real \<Rightarrow> js_number" where
  "or_default v d = (case v of None \<Rightarrow> Num d | Some n \<Rightarrow> n)"

text \<open>
  \<^verbatim>\<open>if (!Number.isFinite(x) || x <= bound) x = fallback\<close>
\<close>

definition finite_above :: "js_number \<Rightarrow> real \<Rightarrow> real \<Rightarrow> real" where
  "finite_above x bound fallback =
     (case x of Num r \<Rightarrow> if r \<le> bound then fallback else r | _ \<Rightarrow> fallback)"

definition validate_refreshIntervalMs :: "js_number option \<Rightarrow> real" where
  "validate_refreshIntervalMs v =
     (let r = finite_above (or_default v 30000) 0 30000
      in if r < MIN_REFRESH_INTERVAL_MS then MIN_REFRESH_INTERVAL_MS else r)"

definition validate_staleAfterMs :: "real \<Rightarrow> js_number option \<Rightarrow> real" where
  "validate_staleAfterMs refreshInterval v =
     (let s = finite_above (or_default v (refreshInterval * 4)) 0 (refreshInterval * 4);
          minimumStale = refreshInterval * 2
      in if s < minimumStale then minimumStale else s)"

definition validate_fetchTimeoutMs :: "js_number option \<Rightarrow> real" where
  "validate_fetchTimeoutMs v = finite_above (or_default v 10000) 0 10000"

definition validate_maxBackoffMs :: "real \<Rightarrow> js_number option \<Rightarrow> real" where
  "validate_maxBackoffMs refreshInterval v =
     finite_above (or_default v (5 * 60 * 1000)) refreshInterval
       (max (refreshInterval * 4) (5 * 60 * 1000))"

definition createServer :: "options \<Rightarrow> js_error + config" where
  "createServer opts =
     (let r = validate_refreshIntervalMs (opt_refreshIntervalMs opts);
          s = validate_staleAfterMs r (opt_staleAfterMs opts);
          t = validate_fetchTimeoutMs (opt_fetchTimeoutMs opts);
          b = validate_maxBackoffMs r (opt_maxBackoffMs opts)
      in case opt_feedUrl opts of
           None \<Rightarrow> Inl (JsError (ascii ''Error'') (ascii ''feedUrl is required to create the server''))
         | Some u \<Rightarrow>
             if u = [] then Inl (JsError (ascii ''Error'') (ascii ''feedUrl is required to create the server''))
             else Inr \<lparr> feedUrl = u, refreshIntervalMs = r, staleAfterMs = s,
                        fetchTimeoutMs = t, maxBackoffMs = b \<rparr>)"

text \<open>
  The delay of \<^verbatim>\<open>scheduleNextRefresh\<close>:
  \<^verbatim>\<open>Math.min(refreshIntervalMs * Math.min(Math.pow(2, Math.max(0, consecutiveFailures - 1)), 16), maxBackoffMs)\<close>
\<close>

definition backoffMultiplier :: "nat \<Rightarrow> real" where
  "backoffMultiplier consecutiveFailures =
     min (2 ^ nat (max 0 (int consecutiveFailures - 1))) MAX_BACKOFF_MULTIPLIER"

definition delay :: "config \<Rightarrow> nat \<Rightarrow> real" where
  "delay cfg consecutiveFailures =
     min (refreshIntervalMs cfg * backoffMultiplier consecutiveFailures) (maxBackoffMs cfg)"

section \<open>Strings: truthiness, \<^verbatim>\<open>trim\<close> and the headsign pattern\<close>

definition is_space :: "nat \<Rightarrow> bool" where
  "is_space c \<longleftrightarrow>
     c \<in> {9, 10, 11, 12, 13, 32, 160, 5760, 8232, 8233, 8239, 8287, 12288, 65279}
     \<or> (8192 \<le> c \<and> c \<le> 8202)"

definition is_line_terminator :: "nat \<Rightarrow> bool" where
  "is_line_terminator c \<longleftrightarrow> c \<in> {10, 13, 8232, 8233}"

text \<open>The character class \<^verbatim>\<open>[-\<close>en dash\<^verbatim>\<open>>]\<close>: hyphen-minus, en dash, greater-than.\<close>

definition is_separator :: "nat \<Rightarrow> bool" where
  "is_separator c \<longleftrightarrow> c = 45 \<or> c = 8211 \<or> c = 62"

definition trim :: "js_string \<Rightarrow> js_string" where
  "trim s = rev (dropWhile is_space (rev (dropWhile is_space s)))"

text \<open>
  The pattern of \<^verbatim>\<open>deriveHeadsignFromLabel\<close> is
  \<^verbatim>\<open>/[-\<close>en dash\<^verbatim>\<open>>]{1,2}\s*(.+)$/\<close>, without flags. Read from the right:
  \<open>match_rest\<close> is \<^verbatim>\<open>(.+)$\<close> (at least one unit, none a line terminator, up to
  the end of the input); \<open>match_spaces\<close> puts the greedy \<^verbatim>\<open>\s*\<close> in front, giving a
  unit back when the rest fails; \<open>match_separators\<close> puts one or two separators in
  front, two first; \<open>regex_search\<close> tries every start position from the left. Each
  returns the capture group.
\<close>

definition match_rest :: "js_string \<Rightarrow> js_string option" where
  "match_rest s = (if s \<noteq> [] \<and> list_all (\<lambda>c. \<not> is_line_terminator c) s then Some s else None)"

fun match_spaces :: "js_string \<Rightarrow> js_string option" where
  "match_spaces [] = match_rest []"
| "match_spaces (c # s) =
     (if is_space c
      then (case match_spaces s of Some cap \<Rightarrow> Some cap | None \<Rightarrow> match_rest (c # s))
      else match_rest (c # s))"

fun match_separators :: "js_string \<Rightarrow> js_string option" where
  "match_separators [] = None"
| "match_separators [c] = (if is_separator c then match_spaces [] else None)"
| "match_separators (c # d # s) =
     (if is_separator c
      then (if is_separator d
            then (case match_spaces s of Some cap \<Rightarrow> Some cap | None \<Rightarrow> match_spaces (d # s))
            else match_spaces (d # s))
      else None)"

fun regex_search :: "js_string \<Rightarrow> js_string option" where
  "regex_search [] = None"
| "regex_search (c # s) =
     (case match_separators (c # s) of Some cap \<Rightarrow> Some cap | None \<Rightarrow> regex_search s)"

definition deriveHeadsignFromLabel :: "js_string option \<Rightarrow> js_string option" where
  "deriveHeadsignFromLabel label =
     (case label of
        None \<Rightarrow> None
      | Some l \<Rightarrow>
          if l = [] then None
          else let text = trim l in
            if text = [] then None
            else (case regex_search text of
                    Some cap \<Rightarrow> if cap \<noteq> [] then Some (trim cap) else None
                  | None \<Rightarrow> None))"

section \<open>The decoded feed and the emitted records\<close>

text \<open>
  A property that the code tests with \<^verbatim>\<open>hasOwnProperty\<close> is absent, inherited from a
  prototype (the decoder's defaults live there) or the object's own.
\<close>

datatype 'a property = NoProp | Inherited "'a option" | Own "'a option"

fun hasOwnProperty :: "'a property \<Rightarrow> bool" where
  "hasOwnProperty (Own _) = True"
| "hasOwnProperty _ = False"

fun prop_get :: "'a property \<Rightarrow> 'a option" where
  "prop_get NoProp = None"
| "prop_get (Inherited v) = v"
| "prop_get (Own v) = v"

record position =
  latitude :: "js_number option"
  longitude :: "js_number option"
  pos_bearing :: "js_number option"
  pos_speed :: "js_number option"

record trip_descriptor =
  trip_routeId :: "js_string option"
  trip_route_id :: "js_string option"
  trip_tripId :: "js_string option"
  trip_trip_id :: "js_string option"
  trip_tripHeadsign :: "js_string option"
  trip_trip_headsign :: "js_string option"
  trip_headsign :: "js_string option"
  trip_tripDestination :: "js_string option"
  trip_destination :: "js_string option"
  trip_directionId :: "js_number property"
  trip_direction_id :: "js_number property"
  trip_routeType :: "js_number property"
  trip_route_type :: "js_number property"

record vehicle_descriptor =
  vd_id :: "js_string option"
  vd_label :: "js_string option"
  vd_type :: "js_number property"

text \<open>
  The decoder hands out a 64-bit field such as the vehicle's timestamp as a
  \<^verbatim>\<open>Long\<close> object, and as a plain number only where no \<^verbatim>\<open>Long\<close>
  implementation is present. An object is truthy whatever it holds; \<^verbatim>\<open>Number(x)\<close>
  of a \<^verbatim>\<open>Long\<close> is the number it holds.
\<close>

datatype js_timestamp = AsNumber js_number | AsLong nat

record vehicle_position =
  vp_trip :: "trip_descriptor option"
  vp_vehicle :: "vehicle_descriptor option"
  vp_position :: "position option"
  vp_timestamp :: "js_timestamp option"
  vp_headsign :: "js_string option"

record feed_entity =
  entity_id :: "js_string option"
  entity_vehicle :: "vehicle_position option"

record item =
  item_id :: "js_string option"
  label :: "js_string option"
  lat :: "js_number option"
  lon :: "js_number option"
  bearing :: "js_number option"
  speed :: "js_number option"
  routeId :: "js_string option"
  tripId :: "js_string option"
  timestamp :: "js_number option"
  headsign :: "js_string option"
  directionId :: "js_number option"
  vehicleType :: "js_number option"

text \<open>Truthiness of a string and of a number, \<^verbatim>\<open>a || b\<close> and \<^verbatim>\<open>a ?? b\<close>.\<close>

definition truthy_str :: "js_string option \<Rightarrow> bool" where
  "truthy_str v = (case v of None \<Rightarrow> False | Some s \<Rightarrow> s \<noteq> [])"

fun truthy_num :: "js_number option \<Rightarrow> bool" where
  "truthy_num None = False"
| "truthy_num (Some (Num r)) = (r \<noteq> 0)"
| "truthy_num (Some NaN) = False"
| "truthy_num (Some PosInf) = True"
| "truthy_num (Some NegInf) = True"

definition or_str :: "js_string option \<Rightarrow> js_string option \<Rightarrow> js_string option" where
  "or_str a b = (if truthy_str a then a else b)"

definition or_num :: "js_number option \<Rightarrow> js_number option \<Rightarrow> js_number option" where
  "or_num a b = (if truthy_num a then a else b)"

definition nullish :: "'a option \<Rightarrow> 'a option \<Rightarrow> 'a option" where
  "nullish a b = (case a of None \<Rightarrow> b | Some _ \<Rightarrow> a)"

text \<open>
  Truthiness of \<^verbatim>\<open>vehicle.timestamp\<close>, \<^verbatim>\<open>Number(vehicle.timestamp)\<close> and
  \<^verbatim>\<open>x * 1000\<close>.
\<close>

fun truthy_timestamp :: "js_timestamp option \<Rightarrow> bool" where
  "truthy_timestamp None = False"
| "truthy_timestamp (Some (AsNumber n)) = truthy_num (Some n)"
| "truthy_timestamp (Some (AsLong k)) = True"

fun Number_of :: "js_timestamp \<Rightarrow> js_number" where
  "Number_of (AsNumber n) = n"
| "Number_of (AsLong k) = Num (real k)"

fun times_1000 :: "js_number \<Rightarrow> js_number" where
  "times_1000 (Num r) = Num (r * 1000)"
| "times_1000 n = n"

text \<open>\<^verbatim>\<open>vehicle.trip || {}\<close> and \<^verbatim>\<open>vehicle.vehicle || {}\<close>: the empty object.\<close>

definition empty_trip :: trip_descriptor where
  "empty_trip = \<lparr> trip_routeId = None, trip_route_id = None, trip_tripId = None,
     trip_trip_id = None, trip_tripHeadsign = None, trip_trip_headsign = None,
     trip_headsign = None, trip_tripDestination = None, trip_destination = None,
     trip_directionId = NoProp, trip_direction_id = NoProp,
     trip_routeType = NoProp, trip_route_type = NoProp \<rparr>"

definition empty_descriptor :: vehicle_descriptor where
  "empty_descriptor = \<lparr> vd_id = None, vd_label = None, vd_type = NoProp \<rparr>"

text \<open>
  The chain \<^verbatim>\<open>vehicle.headsign || attribs.tripHeadsign || attribs.trip_headsign ||
  attribs.headsign || attribs.tripDestination || attribs.destination || null\<close>.
\<close>

definition explicit_headsign :: "vehicle_position \<Rightarrow> trip_descriptor \<Rightarrow> js_string option" where
  "explicit_headsign vehicle attribs =
     or_str (or_str (or_str (or_str (or_str (or_str (vp_headsign vehicle)
       (trip_tripHeadsign attribs)) (trip_trip_headsign attribs)) (trip_headsign attribs))
       (trip_tripDestination attribs)) (trip_destination attribs)) None"

text \<open>The body of the loop over \<^verbatim>\<open>feed.entity\<close>, for an entity that is kept.\<close>

definition make_item :: "feed_entity \<Rightarrow> vehicle_position \<Rightarrow> position \<Rightarrow> item" where
  "make_item entity vehicle pos =
     (let trip = (case vp_trip vehicle of None \<Rightarrow> empty_trip | Some t \<Rightarrow> t);
          attribs = trip;
          vehicleDescriptor = (case vp_vehicle vehicle of None \<Rightarrow> empty_descriptor | Some d \<Rightarrow> d);
          rawLabel = (if truthy_str (or_str (vd_label vehicleDescriptor) (vd_id vehicleDescriptor))
                      then or_str (vd_label vehicleDescriptor) (vd_id vehicleDescriptor)
                      else None);
          rawVehicleType = (if hasOwnProperty (vd_type vehicleDescriptor)
                            then prop_get (vd_type vehicleDescriptor) else None);
          rawRouteType = (if hasOwnProperty (trip_routeType attribs)
                          then prop_get (trip_routeType attribs)
                          else if hasOwnProperty (trip_route_type attribs)
                               then prop_get (trip_route_type attribs) else None);
          label' = map_option trim rawLabel;
          headsign0 = explicit_headsign vehicle attribs;
          headsign' = (if \<not> truthy_str headsign0 then deriveHeadsignFromLabel label' else headsign0);
          directionIdProvided = (hasOwnProperty (trip_directionId attribs)
                                 \<or> hasOwnProperty (trip_direction_id attribs));
          directionId' = (if directionIdProvided
                          then nullish (nullish (prop_get (trip_directionId attribs))
                                                (prop_get (trip_direction_id attribs))) None
                          else None);
          vehicleType' = (if rawVehicleType \<noteq> None then rawVehicleType else rawRouteType)
      in \<lparr> item_id = or_str (or_str (or_str (vd_id vehicleDescriptor) (vd_label vehicleDescriptor))
                                    (entity_id entity)) None,
           label = label',
           lat = latitude pos,
           lon = longitude pos,
           bearing = or_num (pos_bearing pos) None,
           speed = or_num (pos_speed pos) None,
           routeId = or_str (trip_routeId trip) (trip_route_id trip),
           tripId = or_str (trip_tripId trip) (trip_trip_id trip),
           timestamp = (if truthy_timestamp (vp_timestamp vehicle)
                        then map_option (\<lambda>x. times_1000 (Number_of x)) (vp_timestamp vehicle)
                        else None),
           headsign = (if truthy_str headsign' then map_option trim headsign' else None),
           directionId = directionId',
           vehicleType = vehicleType' \<rparr>)"

text \<open>
  The loop itself: \<open>items\<close> is the array being filled; an entity without a vehicle,
  without a position or with a \<^verbatim>\<open>null\<close> latitude or longitude is skipped
  (\<^verbatim>\<open>continue\<close>).
\<close>

fun collect_items :: "feed_entity list \<Rightarrow> item list \<Rightarrow> item list" where
  "collect_items [] items = items"
| "collect_items (entity # rest) items =
     (case entity_vehicle entity of
        None \<Rightarrow> collect_items rest items
      | Some vehicle \<Rightarrow>
          (case vp_position vehicle of
             None \<Rightarrow> collect_items rest items
           | Some pos \<Rightarrow>
               if latitude pos = None \<or> longitude pos = None
               then collect_items rest items
               else collect_items rest (items @ [make_item entity vehicle pos])))"

section \<open>The snapshot and the refresh\<close>

text \<open>
  What the server takes from its platform: the SHA-1 digest in hexadecimal,
  \<^verbatim>\<open>JSON.stringify\<close>, the conversion of a number to a string,
  \<^verbatim>\<open>Date.prototype.toISOString\<close>, the decoder of the feed's wire format, which
  returns the entities of the message or throws, and the comparison of a conditional
  request with the response headers that Express makes before it sends a body
  (\<open>conditional_fresh\<close>, the parsing of validator lists and dates).
\<close>

type_synonym bytes = "nat list"

datatype header = CacheControl | ETag | XFeedUpdatedAt | XFeedError | XFeedStalenessMs
  | XFeedStale | RetryAfter | XFeedWarning | ContentType

text \<open>The request headers that decide whether a response counts as fresh.\<close>

record request =
  req_if_none_match :: "js_string option"
  req_if_modified_since :: "js_string option"
  req_cache_control :: "js_string option"

record platform =
  sha1_hex :: "js_string \<Rightarrow> js_string"
  json_stringify :: "item list \<Rightarrow> js_string"
  number_to_string :: "real \<Rightarrow> js_string"
  to_iso_string :: "real \<Rightarrow> js_string"
  decode_feed :: "bytes \<Rightarrow> js_error + feed_entity list"
  conditional_fresh :: "request \<Rightarrow> (header \<Rightarrow> js_string option) \<Rightarrow> bool"

text \<open>
  The variables that \<^verbatim>\<open>createServer\<close> closes over. \<open>inFlightUpdate\<close> holds the
  handle of the pending promise, \<open>refreshTimer\<close> the delay of the armed timer.
\<close>

record server_state =
  vehicles :: "item list"
  vehiclesJson :: js_string
  vehiclesEtag :: js_string
  lastUpdatedAtMs :: real
  lastUpdateError :: "js_error option"
  inFlightUpdate :: "nat option"
  refreshTimer :: "real option"
  hasStopped :: bool
  consecutiveFailures :: nat

text \<open>\<open>computeEtag\<close>, for the string payload that every call in the server passes.\<close>

definition computeEtag :: "platform \<Rightarrow> real \<Rightarrow> js_string \<Rightarrow> js_string" where
  \<open>computeEtag P updatedAt payload =
     (let hash = sha1_hex P payload
      in if updatedAt = 0 then ascii ''W/"empty-'' @ hash @ ascii ''"''
         else ascii ''"'' @ number_to_string P updatedAt @ ascii ''-'' @ hash @ ascii ''"'')\<close>

definition initial_state :: "platform \<Rightarrow> server_state" where
  "initial_state P =
     \<lparr> vehicles = [], vehiclesJson = ascii ''[]'',
       vehiclesEtag = computeEtag P 0 (ascii ''[]''), lastUpdatedAtMs = 0,
       lastUpdateError = None, inFlightUpdate = None, refreshTimer = None,
       hasStopped = False, consecutiveFailures = 0 \<rparr>"

definition currentEtag :: "platform \<Rightarrow> server_state \<Rightarrow> js_string" where
  "currentEtag P s =
     (if vehiclesEtag s \<noteq> [] then vehiclesEtag s
      else computeEtag P (lastUpdatedAtMs s) (vehiclesJson s))"

text \<open>
  What the upstream does in one refresh: \<^verbatim>\<open>fetchImpl\<close> rejects (a network failure, or
  the abort that the timeout triggers), or it resolves to a response with its
  \<^verbatim>\<open>ok\<close>, \<^verbatim>\<open>status\<close>, \<^verbatim>\<open>statusText\<close> and the outcome of \<^verbatim>\<open>arrayBuffer()\<close>.
\<close>

datatype upstream =
    FetchRejects js_error
  | Responds bool real js_string "js_error + bytes"

text \<open>The \<^verbatim>\<open>try\<close> block of the update up to the filled \<open>items\<close> array.\<close>

definition fetch_items :: "platform \<Rightarrow> upstream \<Rightarrow> js_error + item list" where
  "fetch_items P u =
     (case u of
        FetchRejects err \<Rightarrow> Inl err
      | Responds ok status statusText buffer \<Rightarrow>
          if \<not> ok
          then Inl (JsError (ascii ''Error'')
                 (ascii ''HTTP '' @ number_to_string P status @ ascii '' '' @ statusText))
          else (case buffer of
                  Inl err \<Rightarrow> Inl err
                | Inr raw \<Rightarrow>
                    (case decode_feed P raw of
                       Inl err \<Rightarrow> Inl err
                     | Inr entities \<Rightarrow> Inr (collect_items entities []))))"

text \<open>
  The update that \<^verbatim>\<open>refresh\<close> starts: the rest of the \<^verbatim>\<open>try\<close> block commits at time
  \<open>now\<close> (\<^verbatim>\<open>Date.now()\<close>), the \<^verbatim>\<open>catch\<close> block records the failure.
\<close>

definition run_update :: "platform \<Rightarrow> upstream \<Rightarrow> real \<Rightarrow> server_state \<Rightarrow> server_state" where
  "run_update P u now s =
     (case fetch_items P u of
        Inr items \<Rightarrow>
          s\<lparr> vehicles := items,
             vehiclesJson := json_stringify P items,
             vehiclesEtag := computeEtag P now (json_stringify P items),
             lastUpdatedAtMs := now,
             lastUpdateError := None,
             consecutiveFailures := 0 \<rparr>
      | Inl err \<Rightarrow>
          s\<lparr> lastUpdateError := Some err,
             consecutiveFailures := consecutiveFailures s + 1 \<rparr>)"

text \<open>A refresh from start to end: the update, then \<^verbatim>\<open>inFlightUpdate = null\<close>.\<close>

definition refresh :: "platform \<Rightarrow> upstream \<Rightarrow> real \<Rightarrow> server_state \<Rightarrow> server_state" where
  "refresh P u now s = (run_update P u now s)\<lparr> inFlightUpdate := None \<rparr>"

definition scheduleNextRefresh :: "config \<Rightarrow> server_state \<Rightarrow> server_state" where
  "scheduleNextRefresh cfg s =
     (if hasStopped s then s
      else s\<lparr> refreshTimer := Some (delay cfg (consecutiveFailures s)) \<rparr>)"

section \<open>Callers of \<^verbatim>\<open>refresh\<close> while an update is pending\<close>

text \<open>
  The event loop around the server: \<open>fetchCalls\<close> counts the calls of
  \<^verbatim>\<open>fetchImpl\<close>; \<open>awaiting\<close> lists the calls of \<^verbatim>\<open>refresh\<close> whose promise is
  pending, each with the way it waits; \<open>resumed\<close> lists the calls whose promise has
  been fulfilled, each with the value it was fulfilled with (\<open>None\<close> is
  \<^verbatim>\<open>undefined\<close>).

  A call that finds no update pending starts one and suspends at
  \<^verbatim>\<open>await inFlightUpdate\<close>; when it goes on it clears \<open>inFlightUpdate\<close> and returns
  \<open>vehicles\<close>. A call that finds an update pending returns that update's promise, so
  its own promise takes the value of the update's promise; the update is an
  \<^verbatim>\<open>async\<close> function without a \<^verbatim>\<open>return\<close>, its promise is fulfilled with
  \<^verbatim>\<open>undefined\<close>. The update catches every error, no promise is rejected.
\<close>

datatype pending = Started nat | Attached nat

fun promise_of :: "pending \<Rightarrow> nat" where
  "promise_of (Started p) = p"
| "promise_of (Attached p) = p"

fun resolved_value :: "server_state \<Rightarrow> pending \<Rightarrow> item list option" where
  "resolved_value s (Started p) = Some (vehicles s)"
| "resolved_value s (Attached p) = None"

record runtime =
  server :: server_state
  fetchCalls :: nat
  awaiting :: "(nat \<times> pending) list"
  resumed :: "(nat \<times> item list option) list"

text \<open>
  Caller \<open>c\<close> calls \<^verbatim>\<open>refresh()\<close>. With an update pending the call returns that
  promise; otherwise it starts the update, which calls \<^verbatim>\<open>fetchImpl\<close> before its first
  \<^verbatim>\<open>await\<close>, and waits for it.
\<close>

definition refresh_call :: "nat \<Rightarrow> runtime \<Rightarrow> runtime" where
  "refresh_call c rt =
     (case inFlightUpdate (server rt) of
        Some p \<Rightarrow> rt\<lparr> awaiting := awaiting rt @ [(c, Attached p)] \<rparr>
      | None \<Rightarrow>
          (let p = fetchCalls rt
           in rt\<lparr> server := (server rt)\<lparr> inFlightUpdate := Some p \<rparr>,
                  fetchCalls := Suc (fetchCalls rt),
                  awaiting := awaiting rt @ [(c, Started p)] \<rparr>))"

text \<open>
  The pending update finishes with upstream outcome \<open>u\<close> at time \<open>now\<close>: the
  server's variables are updated, the starting call clears \<open>inFlightUpdate\<close>, and
  the promise of every call that waits for this update is fulfilled with the value that
  its way of waiting gives.
\<close>

definition settle :: "platform \<Rightarrow> upstream \<Rightarrow> real \<Rightarrow> runtime \<Rightarrow> runtime" where
  "settle P u now rt =
     (case inFlightUpdate (server rt) of
        None \<Rightarrow> rt
      | Some p \<Rightarrow>
          (let s' = refresh P u now (server rt)
           in rt\<lparr> server := s',
                  awaiting := filter (\<lambda>(c, w). promise_of w \<noteq> p) (awaiting rt),
                  resumed := resumed rt
                     @ map (\<lambda>(c, w). (c, resolved_value s' w))
                         (filter (\<lambda>(c, w). promise_of w = p) (awaiting rt)) \<rparr>))"

fun refresh_calls :: "nat list \<Rightarrow> runtime \<Rightarrow> runtime" where
  "refresh_calls [] rt = rt"
| "refresh_calls (c # cs) rt = refresh_calls cs (refresh_call c rt)"

section \<open>\<^verbatim>\<open>GET /positions\<close>\<close>

text \<open>
  \<open>ensureLatest\<close> waits for the pending update, or refreshes when no vehicle is
  cached; \<open>u\<close> and \<open>t\<close> are the upstream outcome and the commit time of that update.
\<close>

definition ensureLatest :: "platform \<Rightarrow> upstream \<Rightarrow> real \<Rightarrow> server_state \<Rightarrow> server_state" where
  "ensureLatest P u t s =
     (if inFlightUpdate s \<noteq> None then refresh P u t s
      else if vehicles s = [] then refresh P u t s
      else s)"

record response =
  status :: nat
  headers :: "header \<Rightarrow> js_string option"
  body :: "js_string option"

definition stalenessMs :: "real \<Rightarrow> server_state \<Rightarrow> real option" where
  "stalenessMs now s = (if lastUpdatedAtMs s \<noteq> 0 then Some (now - lastUpdatedAtMs s) else None)"

definition isStale :: "config \<Rightarrow> real \<Rightarrow> server_state \<Rightarrow> bool" where
  "isStale cfg now s = (case stalenessMs now s of None \<Rightarrow> False | Some d \<Rightarrow> d > staleAfterMs cfg)"

text \<open>
  The handler's own statements after \<^verbatim>\<open>await ensureLatest()\<close>: the headers it
  sets, the status it sets and the body it passes to \<^verbatim>\<open>res.send\<close>; \<open>now\<close> is
  \<^verbatim>\<open>Date.now()\<close>, \<open>if_none_match\<close> is \<^verbatim>\<open>req.headers['if-none-match']\<close>. A
  body of \<open>None\<close> is the branch that ends the response itself with
  \<^verbatim>\<open>res.status(304).end()\<close>. What Express sends for the other branch, and a header
  value that \<^verbatim>\<open>res.set\<close> refuses, are in \<open>res_send\<close> and \<open>serve_positions\<close> below.
\<close>

definition positions_response ::
  "platform \<Rightarrow> config \<Rightarrow> real \<Rightarrow> js_string option \<Rightarrow> server_state \<Rightarrow> response" where
  "positions_response P cfg now if_none_match s =
     (let etag = (if vehiclesEtag s \<noteq> [] then vehiclesEtag s else currentEtag P s);
          h1 = [CacheControl \<mapsto> ascii ''public, max-age=1, must-revalidate'', ETag \<mapsto> etag];
          h2 = (if lastUpdatedAtMs s \<noteq> 0
                then h1(XFeedUpdatedAt \<mapsto> to_iso_string P (lastUpdatedAtMs s)) else h1);
          h3 = (case lastUpdateError s of
                  None \<Rightarrow> h2
                | Some err \<Rightarrow>
                    h2(XFeedError \<mapsto> (if err_message err \<noteq> [] then err_message err
                                       else ascii ''Unknown error'')));
          h4 = (case stalenessMs now s of
                  None \<Rightarrow> h3
                | Some d \<Rightarrow> h3(XFeedStalenessMs \<mapsto> number_to_string P d));
          h5 = (if isStale cfg now s
                then h4(XFeedStale \<mapsto> ascii ''true'',
                        RetryAfter \<mapsto> number_to_string P (of_int \<lceil>refreshIntervalMs cfg / 1000\<rceil>),
                        XFeedWarning \<mapsto> ascii ''Data older than ''
                           @ number_to_string P (staleAfterMs cfg) @ ascii ''ms'')
                else h4)
      in if \<not> isStale cfg now s \<and> if_none_match = Some etag
         then \<lparr> status = 304, headers = h5, body = None \<rparr>
         else \<lparr> status = (if isStale cfg now s then 503 else 200),
                headers = h5(ContentType \<mapsto> ascii ''application/json''),
                body = Some (vehiclesJson s) \<rparr>)"

definition get_positions ::
  "platform \<Rightarrow> config \<Rightarrow> upstream \<Rightarrow> real \<Rightarrow> real \<Rightarrow> js_string option \<Rightarrow> server_state
     \<Rightarrow> server_state \<times> response" where
  "get_positions P cfg u t now if_none_match s =
     (let s' = ensureLatest P u t s in (s', positions_response P cfg now if_none_match s'))"

text \<open>
  \<^verbatim>\<open>res.send\<close> of Express: for a status of 304 or in the 200s it asks whether the
  request is fresh, and if so answers 304 without body and without content headers. A
  request with neither \<^verbatim>\<open>If-None-Match\<close> nor \<^verbatim>\<open>If-Modified-Since\<close> is never
  fresh; the rest of the test is the platform's.
\<close>

definition req_fresh :: "platform \<Rightarrow> request \<Rightarrow> response \<Rightarrow> bool" where
  "req_fresh P req res =
     (if \<not> ((200 \<le> status res \<and> status res < 300) \<or> status res = 304) then False
      else if \<not> truthy_str (req_if_modified_since req) \<and> \<not> truthy_str (req_if_none_match req)
           then False
      else conditional_fresh P req (headers res))"

definition res_send :: "platform \<Rightarrow> request \<Rightarrow> response \<Rightarrow> response" where
  "res_send P req res =
     (if req_fresh P req res
      then res\<lparr> status := 304, headers := (headers res)(ContentType := None), body := None \<rparr>
      else res)"

text \<open>
  \<^verbatim>\<open>res.set\<close> throws on a header value with a character outside tab, 32 to 126 and
  128 to 255; the message of an upstream error is the one value the handler does not
  make itself.
\<close>

definition legal_header_char :: "nat \<Rightarrow> bool" where
  "legal_header_char c \<longleftrightarrow> c = 9 \<or> (32 \<le> c \<and> c \<le> 126) \<or> (128 \<le> c \<and> c \<le> 255)"

definition all_headers :: "header list" where
  "all_headers = [CacheControl, ETag, XFeedUpdatedAt, XFeedError, XFeedStalenessMs,
     XFeedStale, RetryAfter, XFeedWarning, ContentType]"

definition headers_legal :: "(header \<Rightarrow> js_string option) \<Rightarrow> bool" where
  "headers_legal hs =
     list_all (\<lambda>h. case hs h of None \<Rightarrow> True | Some v \<Rightarrow> list_all legal_header_char v)
       all_headers"

text \<open>
  The request from its arrival to what Express sends: \<open>None\<close> when the handler
  throws on a header value, otherwise the handler's 304, or what \<^verbatim>\<open>res.send\<close> makes
  of its status and body.
\<close>

definition serve_positions ::
  "platform \<Rightarrow> config \<Rightarrow> upstream \<Rightarrow> real \<Rightarrow> real \<Rightarrow> request \<Rightarrow> server_state
     \<Rightarrow> server_state \<times> response option" where
  "serve_positions P cfg u t now req s =
     (let (s', r) = get_positions P cfg u t now (req_if_none_match req) s
      in if \<not> headers_legal (headers r) then (s', None)
         else (case body r of
                 None \<Rightarrow> (s', Some r)
               | Some b \<Rightarrow> (s', Some (res_send P req r))))"

text \<open>The \<open>isStale\<close> field that \<^verbatim>\<open>getState()\<close> reports.\<close>

definition getState_isStale :: "config \<Rightarrow> real \<Rightarrow> server_state \<Rightarrow> bool" where
  "getState_isStale cfg now s =
     (if lastUpdatedAtMs s \<noteq> 0 then now - lastUpdatedAtMs s > staleAfterMs cfg else True)"

section \<open>Notions of the specification and runs of the server\<close>

text \<open>
  An entity lacks coordinates when it has no vehicle, the vehicle has no position, or
  the position has no latitude or no longitude; a record has coordinates when both are
  there.
\<close>

definition lacks_coordinates :: "feed_entity \<Rightarrow> bool" where
  "lacks_coordinates entity =
     (case entity_vehicle entity of
        None \<Rightarrow> True
      | Some vehicle \<Rightarrow>
          (case vp_position vehicle of
             None \<Rightarrow> True
           | Some pos \<Rightarrow> latitude pos = None \<or> longitude pos = None))"

text \<open>
  The headsign heuristic in the words of the specification, the trailing text after a
  separator: the text behind the first separator, behind a second separator when one
  follows at once and is not the end, and behind the white space after that; nothing
  when there is no separator or the first one ends the text.
\<close>

definition text_after_first_separator :: "js_string \<Rightarrow> js_string option" where
  "text_after_first_separator t =
     (case dropWhile (\<lambda>c. \<not> is_separator c) t of
        [] \<Rightarrow> None
      | s1 # rest \<Rightarrow>
          (case rest of
             [] \<Rightarrow> None
           | d # r \<Rightarrow>
               if is_separator d \<and> r \<noteq> [] then Some (dropWhile is_space r)
               else Some (dropWhile is_space rest)))"

definition has_coordinates :: "item \<Rightarrow> bool" where
  "has_coordinates it \<longleftrightarrow> lat it \<noteq> None \<and> lon it \<noteq> None"

text \<open>Any number of refreshes one after the other, each with its upstream outcome and time.\<close>

fun run_updates :: "platform \<Rightarrow> (upstream \<times> real) list \<Rightarrow> server_state \<Rightarrow> server_state" where
  "run_updates P [] s = s"
| "run_updates P ((u, now) # rest) s = run_updates P rest (refresh P u now s)"

section \<open>Concrete inputs\<close>

text \<open>
  A small platform for concrete runs: the digest, the serialisation and the number
  formats are stand-ins that keep different inputs apart; the decoder fails on an empty
  buffer and otherwise returns two entities, the first without a position.
\<close>

definition example_position :: position where
  "example_position = \<lparr> latitude = Some (Num 51.75), longitude = Some (Num 19.45),
     pos_bearing = Some (Num 0), pos_speed = Some (Num 0) \<rparr>"

definition example_trip :: trip_descriptor where
  "example_trip = \<lparr> trip_routeId = Some (ascii ''10''), trip_route_id = None,
     trip_tripId = Some (ascii ''trip-10''), trip_trip_id = None, trip_tripHeadsign = None,
     trip_trip_headsign = None, trip_headsign = None, trip_tripDestination = None,
     trip_destination = None, trip_directionId = Own (Some (Num 0)),
     trip_direction_id = NoProp, trip_routeType = Own (Some (Num 0)),
     trip_route_type = NoProp \<rparr>"

definition example_descriptor :: vehicle_descriptor where
  "example_descriptor = \<lparr> vd_id = Some (ascii ''veh-1''),
     vd_label = Some (ascii ''12-Lagiewnicka''), vd_type = Own (Some (Num 0)) \<rparr>"

definition example_vehicle :: vehicle_position where
  "example_vehicle = \<lparr> vp_trip = Some example_trip, vp_vehicle = Some example_descriptor,
     vp_position = Some example_position, vp_timestamp = Some (AsLong 0), vp_headsign = None \<rparr>"

definition example_entity :: feed_entity where
  "example_entity = \<lparr> entity_id = Some (ascii ''veh-1''), entity_vehicle = Some example_vehicle \<rparr>"

definition snake_case_vehicle :: vehicle_position where
  "snake_case_vehicle = example_vehicle \<lparr> vp_trip :=
     Some (example_trip \<lparr> trip_directionId := NoProp,
                          trip_direction_id := Own (Some (Num 0)) \<rparr>) \<rparr>"

definition snake_case_entity :: feed_entity where
  "snake_case_entity = \<lparr> entity_id = Some (ascii ''veh-1''),
     entity_vehicle = Some snake_case_vehicle \<rparr>"

definition signed_vehicle :: vehicle_position where
  "signed_vehicle = example_vehicle \<lparr> vp_headsign := Some (ascii '' Retkinia '') \<rparr>"

definition destination_vehicle :: vehicle_position where
  "destination_vehicle = example_vehicle \<lparr> vp_headsign := Some [], vp_trip :=
     Some (example_trip \<lparr> trip_destination := Some (ascii ''Chojny'') \<rparr>) \<rparr>"

definition number_timestamp_vehicle :: vehicle_position where
  "number_timestamp_vehicle = example_vehicle \<lparr> vp_timestamp := Some (AsNumber (Num 0)) \<rparr>"

definition entity_without_position :: feed_entity where
  "entity_without_position = \<lparr> entity_id = Some (ascii ''veh-2''),
     entity_vehicle = Some \<lparr> vp_trip = None, vp_vehicle = None, vp_position = None,
                             vp_timestamp = None, vp_headsign = None \<rparr> \<rparr>"

definition example_entities :: "feed_entity list" where
  "example_entities = [entity_without_position, example_entity]"

definition example_item :: item where
  "example_item = \<lparr> item_id = Some (ascii ''veh-1''), label = Some (ascii ''12-Lagiewnicka''),
     lat = Some (Num 51.75), lon = Some (Num 19.45), bearing = None, speed = None,
     routeId = Some (ascii ''10''), tripId = Some (ascii ''trip-10''), timestamp = Some (Num 0),
     headsign = Some (ascii ''Lagiewnicka''), directionId = Some (Num 0),
     vehicleType = Some (Num 0) \<rparr>"

definition example_error :: js_error where
  "example_error = JsError (ascii ''AbortError'') (ascii ''Fetch aborted by timeout'')"

definition example_platform :: platform where
  "example_platform = \<lparr>
     sha1_hex = (\<lambda>payload. payload),
     json_stringify = (\<lambda>items. ascii ''['' @ concat (map (\<lambda>it. ascii ''{}'') items) @ ascii '']''),
     number_to_string = (\<lambda>r. [48 + nat \<lfloor>r\<rfloor>]),
     to_iso_string = (\<lambda>r. ascii ''T'' @ [48 + nat \<lfloor>r\<rfloor>]),
     decode_feed = (\<lambda>raw. if raw = []
                          then Inl (JsError (ascii ''Error'') (ascii ''index out of range''))
                          else Inr example_entities),
     conditional_fresh = (\<lambda>req hs.
        case req_if_none_match req of
          None \<Rightarrow> False
        | Some m \<Rightarrow>
            m = ascii ''*''
            \<or> (case hs ETag of
                  None \<Rightarrow> False
                | Some e \<Rightarrow> m = e \<or> m = ascii ''W/'' @ e \<or> ascii ''W/'' @ m = e)) \<rparr>"

definition plain_request :: request where
  "plain_request = \<lparr> req_if_none_match = None, req_if_modified_since = None,
     req_cache_control = None \<rparr>"

definition example_upstream :: upstream where
  "example_upstream = Responds True 200 (ascii ''OK'') (Inr [10])"

definition example_options :: options where
  "example_options = \<lparr> opt_feedUrl = Some (ascii ''test://feed''),
     opt_refreshIntervalMs = Some (Num 10000), opt_staleAfterMs = Some (Num 2000),
     opt_fetchTimeoutMs = Some (Num 100), opt_maxBackoffMs = None \<rparr>"

definition example_config :: config where
  "example_config = \<lparr> feedUrl = ascii ''test://feed'', refreshIntervalMs = 10000,
     staleAfterMs = 20000, fetchTimeoutMs = 100, maxBackoffMs = 300000 \<rparr>"

text \<open>The server after one successful refresh at time 5, and after a second one at time 7.\<close>

definition example_state :: server_state where
  "example_state = \<lparr> vehicles = [example_item], vehiclesJson = ascii ''[{}]'',
     vehiclesEtag = [34, 53, 45] @ ascii ''[{}]'' @ [34], lastUpdatedAtMs = 5,
     lastUpdateError = None, inFlightUpdate = None, refreshTimer = None,
     hasStopped = False, consecutiveFailures = 0 \<rparr>"

definition later_state :: server_state where
  "later_state = example_state \<lparr> vehiclesEtag := [34, 55, 45] @ ascii ''[{}]'' @ [34],
     lastUpdatedAtMs := 7 \<rparr>"

definition example_runtime :: runtime where
  "example_runtime = \<lparr> server = initial_state example_platform, fetchCalls = 0,
     awaiting = [], resumed = [] \<rparr>"

section \<open>Validated configuration and the backoff delay\<close>

lemmas validate_defs = validate_refreshIntervalMs_def validate_staleAfterMs_def
  validate_fetchTimeoutMs_def validate_maxBackoffMs_def finite_above_def or_default_def
  MIN_REFRESH_INTERVAL_MS_def

lemma validate_refreshIntervalMs_ge: "5000 \<le> validate_refreshIntervalMs v"
  by (simp add: validate_refreshIntervalMs_def MIN_REFRESH_INTERVAL_MS_def Let_def)

lemma validate_maxBackoffMs_gt: "0 < r \<Longrightarrow> r < validate_maxBackoffMs r v"
  by (auto simp: validate_maxBackoffMs_def finite_above_def or_default_def
           split: option.splits js_number.splits)

lemma createServer_bounds:
  assumes "createServer opts = Inr cfg"
  shows "5000 \<le> refreshIntervalMs cfg" and "refreshIntervalMs cfg < maxBackoffMs cfg"
proof -
  from assms have r: "refreshIntervalMs cfg = validate_refreshIntervalMs (opt_refreshIntervalMs opts)"
    and b: "maxBackoffMs cfg = validate_maxBackoffMs (refreshIntervalMs cfg) (opt_maxBackoffMs opts)"
    by (auto simp: createServer_def Let_def split: option.splits if_splits)
  show "5000 \<le> refreshIntervalMs cfg"
    using validate_refreshIntervalMs_ge r by simp
  then have "0 < refreshIntervalMs cfg" by simp
  then show "refreshIntervalMs cfg < maxBackoffMs cfg"
    using validate_maxBackoffMs_gt b by simp
qed

lemma backoffMultiplier_mono: "n \<le> m \<Longrightarrow> backoffMultiplier n \<le> backoffMultiplier m"
proof -
  assume "n \<le> m"
  then have "nat (max 0 (int n - 1)) \<le> nat (max 0 (int m - 1))" by simp
  then have "(2::real) ^ nat (max 0 (int n - 1)) \<le> 2 ^ nat (max 0 (int m - 1))"
    by (simp add: power_increasing)
  then show ?thesis
    unfolding backoffMultiplier_def by (simp add: min_le_iff_disj)
qed

lemma backoffMultiplier_failures: "1 \<le> n \<Longrightarrow> backoffMultiplier n = min (2 ^ (n - 1)) 16"
proof -
  assume "1 \<le> n"
  then have "nat (max 0 (int n - 1)) = n - 1" by simp
  then show ?thesis by (simp add: backoffMultiplier_def MAX_BACKOFF_MULTIPLIER_def)
qed

lemma backoffMultiplier_0: "backoffMultiplier 0 = 1"
  by (simp add: backoffMultiplier_def MAX_BACKOFF_MULTIPLIER_def)

lemma createServer_example: "createServer example_options = Inr example_config"
  by (simp add: createServer_def example_options_def example_config_def Let_def
        validate_defs ascii_def)

text \<open>
  Claim C2. For a configuration that \<open>createServer\<close> accepts and every number
  \<open>N \<ge> 1\<close> of consecutive failures, the delay of the next refresh is
  \<open>min (refreshIntervalMs * min (2 ^ (N - 1)) 16) maxBackoffMs\<close>; the delay does not
  decrease when \<open>N\<close> grows, it never exceeds \<open>maxBackoffMs\<close>, with no failure it is
  \<open>refreshIntervalMs\<close>, and it is the delay of the timer that \<open>scheduleNextRefresh\<close>
  arms.
\<close>

theorem backoff_delay:
  assumes "createServer opts = Inr cfg"
  shows "(\<forall>N\<ge>1. delay cfg N = min (refreshIntervalMs cfg * min (2 ^ (N - 1)) 16) (maxBackoffMs cfg))
       \<and> (\<forall>N M. N \<le> M \<longrightarrow> delay cfg N \<le> delay cfg M)
       \<and> (\<forall>N. delay cfg N \<le> maxBackoffMs cfg)
       \<and> delay cfg 0 = refreshIntervalMs cfg
       \<and> (\<forall>s. \<not> hasStopped s \<longrightarrow>
             refreshTimer (scheduleNextRefresh cfg s) = Some (delay cfg (consecutiveFailures s)))"
proof -
  have pos: "0 \<le> refreshIntervalMs cfg" and lt: "refreshIntervalMs cfg < maxBackoffMs cfg"
    using createServer_bounds [OF assms] by simp_all
  have eq: "\<forall>N\<ge>1. delay cfg N = min (refreshIntervalMs cfg * min (2 ^ (N - 1)) 16) (maxBackoffMs cfg)"
    by (simp add: delay_def backoffMultiplier_failures)
  have mono: "\<forall>N M. N \<le> M \<longrightarrow> delay cfg N \<le> delay cfg M"
  proof (intro allI impI)
    fix N M :: nat assume "N \<le> M"
    then have "refreshIntervalMs cfg * backoffMultiplier N \<le> refreshIntervalMs cfg * backoffMultiplier M"
      using pos by (simp add: backoffMultiplier_mono mult_left_mono)
    then show "delay cfg N \<le> delay cfg M"
      unfolding delay_def by (simp add: min_le_iff_disj)
  qed
  have bound: "\<forall>N. delay cfg N \<le> maxBackoffMs cfg"
    by (simp add: delay_def)
  have zero: "delay cfg 0 = refreshIntervalMs cfg"
    using lt by (simp add: delay_def backoffMultiplier_0)
  have sched: "\<forall>s. \<not> hasStopped s \<longrightarrow>
             refreshTimer (scheduleNextRefresh cfg s) = Some (delay cfg (consecutiveFailures s))"
    by (simp add: scheduleNextRefresh_def)
  from eq mono bound zero sched show ?thesis by blast
qed

text \<open>
  The options of the repository's own test (interval 10000, no backoff ceiling given):
  three failures give 40000, seven failures stay under the ceiling of 300000.
\<close>

theorem backoff_delay_witness:
  "createServer example_options = Inr example_config
   \<and> delay example_config 3 = 40000 \<and> delay example_config 4 \<le> delay example_config 7
   \<and> delay example_config 7 \<le> 300000 \<and> delay example_config 0 = 10000
   \<and> \<not> hasStopped example_state
   \<and> refreshTimer (scheduleNextRefresh example_config example_state) = Some 10000"
  using backoff_delay [OF createServer_example] createServer_example
  by (simp add: example_config_def example_state_def)

text \<open>
  Claim C4. The claim gives \<open>max (8 * refreshIntervalMs) (5 minutes)\<close> as the value that
  replaces a rejected or missing \<open>maxBackoffMs\<close>. With an interval of 100000 and a
  ceiling of 50000 the ceiling is rejected, and \<open>createServer\<close> puts
  \<open>max (4 * 100000) 300000 = 400000\<close> in its place, not 800000; with an interval of
  60000 and no ceiling given it takes 300000, not 480000.
\<close>

theorem maxBackoff_fallback_multiplier:
  "createServer \<lparr> opt_feedUrl = Some (ascii ''test://feed''),
       opt_refreshIntervalMs = Some (Num 100000), opt_staleAfterMs = None,
       opt_fetchTimeoutMs = None, opt_maxBackoffMs = Some (Num 50000) \<rparr>
     = Inr \<lparr> feedUrl = ascii ''test://feed'', refreshIntervalMs = 100000,
             staleAfterMs = 400000, fetchTimeoutMs = 10000, maxBackoffMs = 400000 \<rparr>
   \<and> (400000 :: real) \<noteq> max (8 * 100000) (5 * 60 * 1000)
   \<and> createServer \<lparr> opt_feedUrl = Some (ascii ''test://feed''),
       opt_refreshIntervalMs = Some (Num 60000), opt_staleAfterMs = None,
       opt_fetchTimeoutMs = None, opt_maxBackoffMs = None \<rparr>
     = Inr \<lparr> feedUrl = ascii ''test://feed'', refreshIntervalMs = 60000,
             staleAfterMs = 240000, fetchTimeoutMs = 10000, maxBackoffMs = 300000 \<rparr>
   \<and> (300000 :: real) \<noteq> max (8 * 60000) (5 * 60 * 1000)"
  by (simp add: createServer_def Let_def validate_defs ascii_def)

section \<open>The headsign pattern\<close>

lemmas string_defs = ascii_def trim_def is_space_def is_separator_def is_line_terminator_def
  match_rest_def deriveHeadsignFromLabel_def

text \<open>
  A match of the pattern splits the text into a prefix, a separator, white space and the
  capture, which is not empty.
\<close>

lemma match_rest_Some: "match_rest s = Some cap \<Longrightarrow> cap = s \<and> s \<noteq> []"
  by (auto simp: match_rest_def split: if_splits)

lemma match_spaces_Some:
  "match_spaces s = Some cap \<Longrightarrow> \<exists>ws. s = ws @ cap \<and> (\<forall>c\<in>set ws. is_space c) \<and> cap \<noteq> []"
proof (induction s)
  case Nil
  then show ?case by (simp add: match_rest_def)
next
  case (Cons c s)
  show ?case
  proof (cases "is_space c \<and> match_spaces s \<noteq> None")
    case True
    with Cons.prems have "match_spaces s = Some cap" by auto
    from Cons.IH [OF this] obtain ws where "s = ws @ cap" "\<forall>c\<in>set ws. is_space c" "cap \<noteq> []"
      by blast
    with True have "c # s = (c # ws) @ cap \<and> (\<forall>c\<in>set (c # ws). is_space c) \<and> cap \<noteq> []"
      by simp
    then show ?thesis by blast
  next
    case False
    with Cons.prems have "match_rest (c # s) = Some cap" by (auto split: if_splits option.splits)
    then have "c # s = [] @ cap \<and> (\<forall>c\<in>set []. is_space c) \<and> cap \<noteq> []"
      by (auto dest: match_rest_Some)
    then show ?thesis by blast
  qed
qed

lemma match_separators_Some:
  assumes "match_separators s = Some cap"
  shows "\<exists>pre sep ws. s = pre @ sep # ws @ cap \<and> is_separator sep
           \<and> (\<forall>c\<in>set ws. is_space c) \<and> cap \<noteq> []"
proof (cases s rule: match_separators.cases)
  case 1
  with assms show ?thesis by simp
next
  case (2 c)
  with assms show ?thesis by (simp add: match_rest_def split: if_splits)
next
  case (3 c d r)
  with assms have c: "is_separator c" by (simp split: if_splits)
  show ?thesis
  proof (cases "is_separator d \<and> match_spaces r \<noteq> None")
    case True
    with assms 3 c have "match_spaces r = Some cap" by auto
    from match_spaces_Some [OF this] obtain ws where "r = ws @ cap" "\<forall>c\<in>set ws. is_space c" "cap \<noteq> []"
      by blast
    with True 3 have "s = [c] @ d # ws @ cap \<and> is_separator d \<and> (\<forall>c\<in>set ws. is_space c) \<and> cap \<noteq> []"
      by simp
    then show ?thesis by blast
  next
    case False
    with assms 3 c have "match_spaces (d # r) = Some cap" by (auto split: option.splits if_splits)
    from match_spaces_Some [OF this] obtain ws where "d # r = ws @ cap" "\<forall>c\<in>set ws. is_space c" "cap \<noteq> []"
      by blast
    with 3 c have "s = [] @ c # ws @ cap \<and> is_separator c \<and> (\<forall>c\<in>set ws. is_space c) \<and> cap \<noteq> []"
      by simp
    then show ?thesis by blast
  qed
qed

lemma regex_search_Some:
  "regex_search t = Some cap \<Longrightarrow>
     \<exists>pre sep ws. t = pre @ sep # ws @ cap \<and> is_separator sep
        \<and> (\<forall>c\<in>set ws. is_space c) \<and> cap \<noteq> []"
proof (induction t)
  case Nil
  then show ?case by simp
next
  case (Cons c t)
  show ?case
  proof (cases "match_separators (c # t)")
    case None
    with Cons.prems have "regex_search t = Some cap" by simp
    from Cons.IH [OF this] obtain pre sep ws where
      "t = pre @ sep # ws @ cap" "is_separator sep" "\<forall>c\<in>set ws. is_space c" "cap \<noteq> []"
      by blast
    then have "c # t = (c # pre) @ sep # ws @ cap \<and> is_separator sep
        \<and> (\<forall>c\<in>set ws. is_space c) \<and> cap \<noteq> []" by simp
    then show ?thesis by blast
  next
    case (Some a)
    with Cons.prems have "match_separators (c # t) = Some cap" by simp
    then show ?thesis by (rule match_separators_Some)
  qed
qed

lemma trim_spaces_append: "\<forall>c\<in>set ws. is_space c \<Longrightarrow> trim (ws @ s) = trim s"
  by (simp add: trim_def)

lemma last_dropWhile: "dropWhile P xs \<noteq> [] \<Longrightarrow> last (dropWhile P xs) = last xs"
  by (metis takeWhile_dropWhile_id last_appendR)

lemma dropWhile_unchanged: "xs = [] \<or> \<not> P (hd xs) \<Longrightarrow> dropWhile P xs = xs"
  by (cases xs) auto

lemma trim_last: "trim s \<noteq> [] \<Longrightarrow> \<not> is_space (last (trim s))"
proof -
  assume ne: "trim s \<noteq> []"
  let ?b = "dropWhile is_space (rev (dropWhile is_space s))"
  from ne have "?b \<noteq> []" by (simp add: trim_def)
  then have "\<not> is_space (hd ?b)" by (rule hd_dropWhile)
  moreover have "last (trim s) = hd ?b"
    using \<open>?b \<noteq> []\<close> by (simp add: trim_def last_rev)
  ultimately show ?thesis by simp
qed

lemma trim_hd: "trim s \<noteq> [] \<Longrightarrow> \<not> is_space (hd (trim s))"
proof -
  assume ne: "trim s \<noteq> []"
  let ?a = "dropWhile is_space s"
  let ?b = "dropWhile is_space (rev ?a)"
  from ne have b: "?b \<noteq> []" by (simp add: trim_def)
  have a: "?a \<noteq> []"
    using b by (metis dropWhile.simps(1) rev.simps(1))
  have "hd (trim s) = last ?b" using b by (simp add: trim_def hd_rev)
  also have "\<dots> = last (rev ?a)" using b by (rule last_dropWhile)
  also have "\<dots> = hd ?a" using a by (simp add: last_rev)
  finally show ?thesis using hd_dropWhile [OF a] by simp
qed

lemma trim_fixed: "s = [] \<or> (\<not> is_space (hd s) \<and> \<not> is_space (last s)) \<Longrightarrow> trim s = s"
proof (cases "s = []")
  case True
  then show ?thesis by (simp add: trim_def)
next
  case False
  assume "s = [] \<or> (\<not> is_space (hd s) \<and> \<not> is_space (last s))"
  with False have h: "\<not> is_space (hd s)" and l: "\<not> is_space (last s)" by simp_all
  from h have "dropWhile is_space s = s" by (simp add: dropWhile_unchanged)
  moreover from l False have "dropWhile is_space (rev s) = rev s"
    by (simp add: dropWhile_unchanged hd_rev)
  ultimately show ?thesis by (simp add: trim_def)
qed

lemma trim_idem: "trim (trim s) = trim s"
  using trim_hd [of s] trim_last [of s] by (intro trim_fixed) blast

lemma trim_nonempty:
  assumes "s \<noteq> []" and "\<not> is_space (last s)"
  shows "trim s \<noteq> []"
proof -
  let ?a = "dropWhile is_space s"
  from assms have "last s \<in> set s" "\<not> is_space (last s)" by simp_all
  then have a: "?a \<noteq> []" by auto
  then have eq: "last ?a = last s" by (rule last_dropWhile)
  have "last ?a \<in> set ?a" using a by (rule last_in_set)
  then have "last s \<in> set (rev ?a)" using eq by simp
  with assms(2) have "\<exists>x\<in>set (rev ?a). \<not> is_space x" by blast
  then have "dropWhile is_space (rev ?a) \<noteq> []" by simp
  then show ?thesis by (simp add: trim_def)
qed

lemma deriveHeadsignFromLabel_Some:
  assumes "deriveHeadsignFromLabel (Some l) = Some h"
  shows "\<exists>pre sep post. trim l = pre @ sep # post \<and> is_separator sep \<and> h = trim post"
    and "h \<noteq> []" and "trim h = h"
proof -
  from assms obtain cap where t: "trim l \<noteq> []" and r: "regex_search (trim l) = Some cap"
    and h: "h = trim cap"
    by (auto simp: deriveHeadsignFromLabel_def Let_def split: if_splits option.splits)
  from regex_search_Some [OF r] obtain pre sep ws where
    d: "trim l = pre @ sep # ws @ cap" "is_separator sep" "\<forall>c\<in>set ws. is_space c" "cap \<noteq> []"
    by blast
  then have "h = trim (ws @ cap)" using h by (simp add: trim_spaces_append)
  with d show "\<exists>pre sep post. trim l = pre @ sep # post \<and> is_separator sep \<and> h = trim post"
    by blast
  from d have "last (trim l) = last cap" by simp
  with trim_last [OF t] have "\<not> is_space (last cap)" by simp
  with d show "h \<noteq> []" unfolding h by (intro trim_nonempty)
  show "trim h = h" unfolding h by (rule trim_idem)
qed

lemma deriveHeadsignFromLabel_None: "deriveHeadsignFromLabel None = None"
  by (simp add: deriveHeadsignFromLabel_def)

lemma headsign_of_derived:
  "(if truthy_str (deriveHeadsignFromLabel l) then map_option trim (deriveHeadsignFromLabel l) else None)
     = deriveHeadsignFromLabel l"
proof (cases "deriveHeadsignFromLabel l")
  case None
  then show ?thesis by (simp add: truthy_str_def)
next
  case (Some h)
  then obtain l' where "l = Some l'" by (cases l) (simp_all add: deriveHeadsignFromLabel_None)
  with Some deriveHeadsignFromLabel_Some(2,3) [of l' h] show ?thesis
    by (simp add: truthy_str_def)
qed

lemma make_item_headsign:
  "headsign (make_item e v p) =
     (if truthy_str (explicit_headsign v (case vp_trip v of None \<Rightarrow> empty_trip | Some t \<Rightarrow> t))
      then map_option trim (explicit_headsign v (case vp_trip v of None \<Rightarrow> empty_trip | Some t \<Rightarrow> t))
      else deriveHeadsignFromLabel (label (make_item e v p)))"
proof (cases "truthy_str (explicit_headsign v (case vp_trip v of None \<Rightarrow> empty_trip | Some t \<Rightarrow> t))")
  case True
  then show ?thesis by (simp add: make_item_def Let_def)
next
  case False
  let ?d = "deriveHeadsignFromLabel (label (make_item e v p))"
  from False have "headsign (make_item e v p) =
      (if truthy_str ?d then map_option trim ?d else None)"
    by (simp add: make_item_def Let_def)
  also have "\<dots> = ?d" by (rule headsign_of_derived)
  finally show ?thesis using False by simp
qed

lemma deriveHeadsignFromLabel_example:
  "deriveHeadsignFromLabel (Some (ascii ''12-Lagiewnicka'')) = Some (ascii ''Lagiewnicka'')"
  by (simp add: string_defs)

lemmas item_defs = make_item_def Let_def explicit_headsign_def or_str_def or_num_def
  truthy_str_def nullish_def example_entity_def example_vehicle_def example_position_def
  example_trip_def example_descriptor_def

lemma make_item_example:
  "make_item example_entity example_vehicle example_position = example_item"
  by (simp add: item_defs example_item_def string_defs)

text \<open>
  Where the pattern matches: at the first separator of a text whose prefix has none;
  one or two separators and any white space are skipped, and the capture is all that
  follows, when it starts with a unit that is neither white space nor a separator and
  holds no line terminator. A text without a separator has no match.
\<close>

lemma space_not_separator: "is_space c \<Longrightarrow> \<not> is_separator c"
  by (auto simp: is_space_def is_separator_def)

lemma match_separators_other: "\<not> is_separator c \<Longrightarrow> match_separators (c # s) = None"
  by (cases s) simp_all

lemma match_rest_capture:
  "cap \<noteq> [] \<Longrightarrow> \<forall>c\<in>set cap. \<not> is_line_terminator c \<Longrightarrow> match_rest cap = Some cap"
  by (simp add: match_rest_def list_all_iff)

lemma match_spaces_capture:
  assumes "\<forall>c\<in>set ws. is_space c" and "cap \<noteq> []" and "\<not> is_space (hd cap)"
    and "\<forall>c\<in>set cap. \<not> is_line_terminator c"
  shows "match_spaces (ws @ cap) = Some cap"
  using assms(1)
proof (induction ws)
  case Nil
  from assms(2) obtain c r where cap: "cap = c # r" by (cases cap) simp_all
  with assms(3) have "\<not> is_space c" by simp
  then show ?case
    using match_rest_capture [OF assms(2,4)] by (simp add: cap)
next
  case (Cons w ws)
  then show ?case by simp
qed

lemma match_separators_capture:
  assumes "seps \<noteq> []" and "length seps \<le> 2" and "\<forall>c\<in>set seps. is_separator c"
    and "\<forall>c\<in>set ws. is_space c" and "cap \<noteq> []" and "\<not> is_space (hd cap)"
    and "\<not> is_separator (hd cap)" and "\<forall>c\<in>set cap. \<not> is_line_terminator c"
  shows "match_separators (seps @ ws @ cap) = Some cap"
proof -
  have sp: "match_spaces (ws @ cap) = Some cap"
    using assms(4,5,6,8) by (rule match_spaces_capture)
  from assms(5) obtain d r where rest: "ws @ cap = d # r" by (cases "ws @ cap") simp_all
  have d: "\<not> is_separator d"
  proof (cases ws)
    case Nil
    with rest assms(7) show ?thesis by (cases cap) simp_all
  next
    case (Cons w ws')
    with rest assms(4) show ?thesis by (simp add: space_not_separator)
  qed
  from assms(1,2) consider s1 where "seps = [s1]" | s1 s2 where "seps = [s1, s2]"
    by (cases seps rule: match_separators.cases) simp_all
  then show ?thesis
  proof cases
    case 1
    with assms(3) have "is_separator s1" by simp
    then have "match_separators (s1 # d # r) = match_spaces (d # r)"
      using d by simp
    then show ?thesis using sp by (simp add: 1 rest)
  next
    case 2
    with assms(3) have "is_separator s1" "is_separator s2" by simp_all
    then show ?thesis using sp by (simp add: 2)
  qed
qed

lemma regex_search_capture:
  assumes "\<forall>c\<in>set pre. \<not> is_separator c"
    and "match_separators t = Some cap"
  shows "regex_search (pre @ t) = Some cap"
  using assms(1)
proof (induction pre)
  case Nil
  from assms(2) obtain c r where "t = c # r" by (cases t) simp_all
  then show ?case using assms(2) by simp
next
  case (Cons c pre)
  then show ?case by (simp add: match_separators_other)
qed

lemma regex_search_no_separator:
  "\<forall>c\<in>set t. \<not> is_separator c \<Longrightarrow> regex_search t = None"
  by (induction t) (simp_all add: match_separators_other)

lemma trim_Nil: "trim [] = []"
  by (simp add: trim_def)

lemma deriveHeadsignFromLabel_capture:
  assumes "trim l = pre @ seps @ ws @ cap" and "\<forall>c\<in>set pre. \<not> is_separator c"
    and "seps \<noteq> []" and "length seps \<le> 2" and "\<forall>c\<in>set seps. is_separator c"
    and "\<forall>c\<in>set ws. is_space c" and "cap \<noteq> []" and "\<not> is_space (hd cap)"
    and "\<not> is_separator (hd cap)" and "\<forall>c\<in>set cap. \<not> is_line_terminator c"
  shows "deriveHeadsignFromLabel (Some l) = Some cap"
proof -
  have t: "trim l \<noteq> []" using assms(1,7) by simp
  then have l: "l \<noteq> []" using trim_Nil by auto
  have "regex_search (trim l) = Some cap"
    unfolding assms(1)
    using assms(2) match_separators_capture [OF assms(3,4,5,6,7,8,9,10)]
    by (rule regex_search_capture)
  moreover have "trim cap = cap"
  proof (rule trim_fixed)
    have "last (trim l) = last cap" using assms(1,7) by simp
    with trim_last [OF t] assms(8) show "cap = [] \<or> (\<not> is_space (hd cap) \<and> \<not> is_space (last cap))"
      by simp
  qed
  ultimately show ?thesis
    using t l assms(7) by (simp add: deriveHeadsignFromLabel_def Let_def)
qed

lemma deriveHeadsignFromLabel_no_separator:
  "\<forall>c\<in>set (trim l). \<not> is_separator c \<Longrightarrow> deriveHeadsignFromLabel (Some l) = None"
  by (simp add: deriveHeadsignFromLabel_def Let_def regex_search_no_separator)

text \<open>
  On a label without line terminator the pattern computes the trailing text after the
  first separator.
\<close>

lemma match_spaces_single_line:
  "s \<noteq> [] \<Longrightarrow> \<forall>c\<in>set s. \<not> is_line_terminator c \<Longrightarrow> \<not> is_space (last s)
   \<Longrightarrow> match_spaces s = Some (dropWhile is_space s)"
proof (induction s)
  case Nil
  then show ?case by simp
next
  case (Cons c s)
  show ?case
  proof (cases "is_space c")
    case True
    with Cons.prems have ne: "s \<noteq> []" by auto
    with Cons.prems have "match_spaces s = Some (dropWhile is_space s)"
      by (intro Cons.IH) simp_all
    with True show ?thesis by simp
  next
    case False
    with Cons.prems show ?thesis by (simp add: match_rest_capture)
  qed
qed

lemma match_separators_single_line:
  assumes "is_separator s1" and "rest \<noteq> []" and "\<forall>c\<in>set rest. \<not> is_line_terminator c"
    and "\<not> is_space (last rest)"
  shows "match_separators (s1 # rest) =
     (case rest of
        [] \<Rightarrow> None
      | d # r \<Rightarrow> if is_separator d \<and> r \<noteq> [] then Some (dropWhile is_space r)
                 else Some (dropWhile is_space rest))"
proof -
  from assms(2) obtain d r where rest: "rest = d # r" by (cases rest) simp_all
  have whole: "match_spaces (d # r) = Some (dropWhile is_space (d # r))"
    using assms(2,3,4) unfolding rest by (rule match_spaces_single_line)
  show ?thesis
  proof (cases "is_separator d")
    case False
    with assms(1) whole show ?thesis by (simp add: rest)
  next
    case True
    show ?thesis
    proof (cases "r = []")
      case True
      have "match_spaces [] = None" by (simp add: match_rest_def)
      with \<open>is_separator d\<close> assms(1) whole True show ?thesis by (simp add: rest)
    next
      case False
      with assms(3,4) have "match_spaces r = Some (dropWhile is_space r)"
        by (intro match_spaces_single_line) (simp_all add: rest)
      with \<open>is_separator d\<close> assms(1) False show ?thesis by (simp add: rest)
    qed
  qed
qed

lemma regex_search_skip:
  "regex_search t = regex_search (dropWhile (\<lambda>c. \<not> is_separator c) t)"
  by (induction t) (simp_all add: match_separators_other)

lemma regex_search_single_line:
  assumes "\<forall>c\<in>set t. \<not> is_line_terminator c" and "t = [] \<or> \<not> is_space (last t)"
  shows "regex_search t = text_after_first_separator t"
proof (cases "dropWhile (\<lambda>c. \<not> is_separator c) t")
  case Nil
  have "regex_search t = None"
    by (subst regex_search_skip) (simp only: Nil regex_search.simps)
  moreover have "text_after_first_separator t = None"
    unfolding text_after_first_separator_def Nil by simp
  ultimately show ?thesis by simp
next
  case (Cons s1 rest)
  then have s1: "is_separator s1"
    using hd_dropWhile [of "\<lambda>c. \<not> is_separator c" t] by auto
  have sub: "set (s1 # rest) \<subseteq> set t"
    using set_dropWhileD [of _ "\<lambda>c. \<not> is_separator c" t] Cons by auto
  show ?thesis
  proof (cases "rest = []")
    case True
    with Cons s1 show ?thesis
      using regex_search_skip [of t] by (simp add: text_after_first_separator_def match_rest_def)
  next
    case False
    from Cons have "t \<noteq> []" by auto
    have "last (dropWhile (\<lambda>c. \<not> is_separator c) t) = last t"
      by (rule last_dropWhile) (simp add: Cons)
    with False Cons have l: "last rest = last t" by simp
    have m: "match_separators (s1 # rest) =
     (case rest of
        [] \<Rightarrow> None
      | d # r \<Rightarrow> if is_separator d \<and> r \<noteq> [] then Some (dropWhile is_space r)
                 else Some (dropWhile is_space rest))"
      using s1 False
    proof (rule match_separators_single_line)
      show "\<forall>c\<in>set rest. \<not> is_line_terminator c" using assms(1) sub by auto
      show "\<not> is_space (last rest)" using assms(2) \<open>t \<noteq> []\<close> l by simp
    qed
    from False obtain d r where rest: "rest = d # r" by (cases rest) simp_all
    have "regex_search (s1 # rest) = match_separators (s1 # rest)"
      using m by (simp add: rest)
    then show ?thesis
      using regex_search_skip [of t] m by (simp add: Cons text_after_first_separator_def)
  qed
qed

lemma text_after_first_separator_trimmed:
  assumes "text_after_first_separator t = Some cap" and "t \<noteq> []" and "\<not> is_space (last t)"
  shows "cap \<noteq> [] \<and> trim cap = cap"
proof -
  from assms(1) obtain s1 rest where d: "dropWhile (\<lambda>c. \<not> is_separator c) t = s1 # rest"
    by (auto simp: text_after_first_separator_def split: list.splits)
  have "last (dropWhile (\<lambda>c. \<not> is_separator c) t) = last t"
    by (rule last_dropWhile) (simp add: d)
  then have lr: "rest \<noteq> [] \<Longrightarrow> last rest = last t" by (simp add: d)
  from assms(1) d obtain x where x: "x \<noteq> []" "last x = last t" "cap = dropWhile is_space x"
  proof (cases rest)
    case Nil
    with assms(1) d show ?thesis by (simp add: text_after_first_separator_def)
  next
    case (Cons e r)
    show ?thesis
    proof (cases "is_separator e \<and> r \<noteq> []")
      case True
      with assms(1) d Cons lr have "r \<noteq> []" "last r = last t" "cap = dropWhile is_space r"
        by (auto simp: text_after_first_separator_def)
      then show ?thesis by (rule that)
    next
      case False
      with assms(1) d Cons lr have "rest \<noteq> []" "last rest = last t" "cap = dropWhile is_space rest"
        by (auto simp: text_after_first_separator_def)
      then show ?thesis by (rule that)
    qed
  qed
  from x(1,2) assms(3) have "\<exists>c\<in>set x. \<not> is_space c"
    using last_in_set by metis
  then have ne: "cap \<noteq> []" by (simp add: x(3))
  then have "last cap = last x" unfolding x(3) by (rule last_dropWhile)
  moreover have "\<not> is_space (hd cap)" using ne unfolding x(3) by (rule hd_dropWhile)
  ultimately have "trim cap = cap"
    using x(2) assms(3) by (intro trim_fixed) simp
  with ne show ?thesis by simp
qed

lemma deriveHeadsignFromLabel_single_line:
  assumes "\<forall>c\<in>set (trim l). \<not> is_line_terminator c"
  shows "deriveHeadsignFromLabel (Some l) = text_after_first_separator (trim l)"
proof (cases "trim l = []")
  case True
  then show ?thesis
    by (simp add: deriveHeadsignFromLabel_def text_after_first_separator_def)
next
  case False
  then have l: "l \<noteq> []" using trim_Nil by auto
  have r: "regex_search (trim l) = text_after_first_separator (trim l)"
    using assms trim_last [OF False] by (intro regex_search_single_line) simp_all
  show ?thesis
  proof (cases "text_after_first_separator (trim l)")
    case None
    with r l False show ?thesis by (simp add: deriveHeadsignFromLabel_def)
  next
    case (Some cap)
    from text_after_first_separator_trimmed [OF Some False trim_last [OF False]]
    show ?thesis using r l False Some by (simp add: deriveHeadsignFromLabel_def)
  qed
qed

text \<open>The chain of the six explicit fields yields the first one that is a non-empty string.\<close>

lemma explicit_headsign_first:
  "truthy_str (vp_headsign v) \<Longrightarrow> explicit_headsign v t = vp_headsign v"
  "\<not> truthy_str (vp_headsign v) \<Longrightarrow> truthy_str (trip_tripHeadsign t)
     \<Longrightarrow> explicit_headsign v t = trip_tripHeadsign t"
  "\<not> truthy_str (vp_headsign v) \<Longrightarrow> \<not> truthy_str (trip_tripHeadsign t)
     \<Longrightarrow> truthy_str (trip_trip_headsign t) \<Longrightarrow> explicit_headsign v t = trip_trip_headsign t"
  "\<not> truthy_str (vp_headsign v) \<Longrightarrow> \<not> truthy_str (trip_tripHeadsign t)
     \<Longrightarrow> \<not> truthy_str (trip_trip_headsign t) \<Longrightarrow> truthy_str (trip_headsign t)
     \<Longrightarrow> explicit_headsign v t = trip_headsign t"
  "\<not> truthy_str (vp_headsign v) \<Longrightarrow> \<not> truthy_str (trip_tripHeadsign t)
     \<Longrightarrow> \<not> truthy_str (trip_trip_headsign t) \<Longrightarrow> \<not> truthy_str (trip_headsign t)
     \<Longrightarrow> truthy_str (trip_tripDestination t) \<Longrightarrow> explicit_headsign v t = trip_tripDestination t"
  "\<not> truthy_str (vp_headsign v) \<Longrightarrow> \<not> truthy_str (trip_tripHeadsign t)
     \<Longrightarrow> \<not> truthy_str (trip_trip_headsign t) \<Longrightarrow> \<not> truthy_str (trip_headsign t)
     \<Longrightarrow> \<not> truthy_str (trip_tripDestination t) \<Longrightarrow> truthy_str (trip_destination t)
     \<Longrightarrow> explicit_headsign v t = trip_destination t"
  by (simp_all add: explicit_headsign_def or_str_def)

lemma explicit_headsign_none:
  "\<not> truthy_str (vp_headsign v) \<Longrightarrow> \<not> truthy_str (trip_tripHeadsign t)
     \<Longrightarrow> \<not> truthy_str (trip_trip_headsign t) \<Longrightarrow> \<not> truthy_str (trip_headsign t)
     \<Longrightarrow> \<not> truthy_str (trip_tripDestination t) \<Longrightarrow> \<not> truthy_str (trip_destination t)
     \<Longrightarrow> \<not> truthy_str (explicit_headsign v t)"
  by (simp add: explicit_headsign_def or_str_def truthy_str_def)

lemma make_item_label:
  "label (make_item e v p) =
     (let d = (case vp_vehicle v of None \<Rightarrow> empty_descriptor | Some d \<Rightarrow> d)
      in if truthy_str (vd_label d) then map_option trim (vd_label d)
         else if truthy_str (vd_id d) then map_option trim (vd_id d)
         else None)"
  by (simp add: make_item_def Let_def or_str_def)

text \<open>
  Claim C9. The label \<open>12-Lagiewnicka\<close> gives the headsign \<open>Lagiewnicka\<close>, also as
  the headsign of the record of a vehicle with that label and none of the six explicit
  headsign fields. In general: on every label without line terminator the derived
  headsign is the trailing text after the first separator of the trimmed label
  (\<open>text_after_first_separator\<close>); in particular, when the trimmed label is a prefix without separator,
  then one or two separators (hyphen, en dash, greater-than), then white space, then a
  text that starts with neither and has no line terminator, the derived headsign is
  that trailing text; a label without separator gives none; and whatever is derived is
  the trimmed text after some separator of the trimmed label. The record's label is the
  descriptor's label, or its id when there is no label, trimmed. The record's headsign
  is the one derived from the record's label exactly when each of
  \<^verbatim>\<open>vehicle.headsign\<close>, \<^verbatim>\<open>tripHeadsign\<close>, \<^verbatim>\<open>trip_headsign\<close>, \<^verbatim>\<open>headsign\<close>,
  \<^verbatim>\<open>tripDestination\<close> and \<^verbatim>\<open>destination\<close> of the trip is absent or the empty
  string; otherwise it is the first of these, in this order, that is a non-empty string,
  trimmed.
\<close>

theorem headsign_fallback:
  assumes "attribs = (case vp_trip v of None \<Rightarrow> empty_trip | Some t \<Rightarrow> t)"
    and "descriptor = (case vp_vehicle v of None \<Rightarrow> empty_descriptor | Some d \<Rightarrow> d)"
  shows "deriveHeadsignFromLabel (Some (ascii ''12-Lagiewnicka'')) = Some (ascii ''Lagiewnicka'')
       \<and> (\<forall>l pre seps ws cap.
            trim l = pre @ seps @ ws @ cap \<and> (\<forall>c\<in>set pre. \<not> is_separator c)
            \<and> seps \<noteq> [] \<and> length seps \<le> 2 \<and> (\<forall>c\<in>set seps. is_separator c)
            \<and> (\<forall>c\<in>set ws. is_space c) \<and> cap \<noteq> [] \<and> \<not> is_space (hd cap)
            \<and> \<not> is_separator (hd cap) \<and> (\<forall>c\<in>set cap. \<not> is_line_terminator c)
            \<longrightarrow> deriveHeadsignFromLabel (Some l) = Some cap)
       \<and> (\<forall>l. (\<forall>c\<in>set (trim l). \<not> is_line_terminator c)
            \<longrightarrow> deriveHeadsignFromLabel (Some l) = text_after_first_separator (trim l))
       \<and> (\<forall>l. (\<forall>c\<in>set (trim l). \<not> is_separator c) \<longrightarrow> deriveHeadsignFromLabel (Some l) = None)
       \<and> deriveHeadsignFromLabel None = None
       \<and> (\<forall>l h. deriveHeadsignFromLabel (Some l) = Some h
            \<longrightarrow> (\<exists>pre sep post. trim l = pre @ sep # post \<and> is_separator sep \<and> h = trim post))
       \<and> label (make_item e v p)
           = (if truthy_str (vd_label descriptor) then map_option trim (vd_label descriptor)
              else if truthy_str (vd_id descriptor) then map_option trim (vd_id descriptor)
              else None)
       \<and> (\<not> truthy_str (vp_headsign v) \<and> \<not> truthy_str (trip_tripHeadsign attribs)
            \<and> \<not> truthy_str (trip_trip_headsign attribs) \<and> \<not> truthy_str (trip_headsign attribs)
            \<and> \<not> truthy_str (trip_tripDestination attribs)
            \<and> \<not> truthy_str (trip_destination attribs)
          \<longrightarrow> headsign (make_item e v p) = deriveHeadsignFromLabel (label (make_item e v p))
              \<and> (vd_label descriptor = Some (ascii ''12-Lagiewnicka'')
                   \<longrightarrow> headsign (make_item e v p) = Some (ascii ''Lagiewnicka'')))
       \<and> (truthy_str (vp_headsign v)
          \<longrightarrow> headsign (make_item e v p) = map_option trim (vp_headsign v))
       \<and> (\<not> truthy_str (vp_headsign v) \<and> truthy_str (trip_tripHeadsign attribs)
          \<longrightarrow> headsign (make_item e v p) = map_option trim (trip_tripHeadsign attribs))
       \<and> (\<not> truthy_str (vp_headsign v) \<and> \<not> truthy_str (trip_tripHeadsign attribs)
            \<and> truthy_str (trip_trip_headsign attribs)
          \<longrightarrow> headsign (make_item e v p) = map_option trim (trip_trip_headsign attribs))
       \<and> (\<not> truthy_str (vp_headsign v) \<and> \<not> truthy_str (trip_tripHeadsign attribs)
            \<and> \<not> truthy_str (trip_trip_headsign attribs) \<and> truthy_str (trip_headsign attribs)
          \<longrightarrow> headsign (make_item e v p) = map_option trim (trip_headsign attribs))
       \<and> (\<not> truthy_str (vp_headsign v) \<and> \<not> truthy_str (trip_tripHeadsign attribs)
            \<and> \<not> truthy_str (trip_trip_headsign attribs) \<and> \<not> truthy_str (trip_headsign attribs)
            \<and> truthy_str (trip_tripDestination attribs)
          \<longrightarrow> headsign (make_item e v p) = map_option trim (trip_tripDestination attribs))
       \<and> (\<not> truthy_str (vp_headsign v) \<and> \<not> truthy_str (trip_tripHeadsign attribs)
            \<and> \<not> truthy_str (trip_trip_headsign attribs) \<and> \<not> truthy_str (trip_headsign attribs)
            \<and> \<not> truthy_str (trip_tripDestination attribs) \<and> truthy_str (trip_destination attribs)
          \<longrightarrow> headsign (make_item e v p) = map_option trim (trip_destination attribs))"
proof -
  have hs: "headsign (make_item e v p) =
     (if truthy_str (explicit_headsign v attribs)
      then map_option trim (explicit_headsign v attribs)
      else deriveHeadsignFromLabel (label (make_item e v p)))"
    unfolding assms by (rule make_item_headsign)
  have lb: "label (make_item e v p)
           = (if truthy_str (vd_label descriptor) then map_option trim (vd_label descriptor)
              else if truthy_str (vd_id descriptor) then map_option trim (vd_id descriptor)
              else None)"
    unfolding assms by (simp add: make_item_label Let_def)
  have positive: "\<forall>l pre seps ws cap.
            trim l = pre @ seps @ ws @ cap \<and> (\<forall>c\<in>set pre. \<not> is_separator c)
            \<and> seps \<noteq> [] \<and> length seps \<le> 2 \<and> (\<forall>c\<in>set seps. is_separator c)
            \<and> (\<forall>c\<in>set ws. is_space c) \<and> cap \<noteq> [] \<and> \<not> is_space (hd cap)
            \<and> \<not> is_separator (hd cap) \<and> (\<forall>c\<in>set cap. \<not> is_line_terminator c)
            \<longrightarrow> deriveHeadsignFromLabel (Some l) = Some cap"
    using deriveHeadsignFromLabel_capture by blast
  have negative: "\<forall>l. (\<forall>c\<in>set (trim l). \<not> is_separator c)
      \<longrightarrow> deriveHeadsignFromLabel (Some l) = None"
    using deriveHeadsignFromLabel_no_separator by blast
  have single: "\<forall>l. (\<forall>c\<in>set (trim l). \<not> is_line_terminator c)
      \<longrightarrow> deriveHeadsignFromLabel (Some l) = text_after_first_separator (trim l)"
    using deriveHeadsignFromLabel_single_line by blast
  have sound: "\<forall>l h. deriveHeadsignFromLabel (Some l) = Some h
      \<longrightarrow> (\<exists>pre sep post. trim l = pre @ sep # post \<and> is_separator sep \<and> h = trim post)"
    using deriveHeadsignFromLabel_Some(1) by blast
  have none: "headsign (make_item e v p) = deriveHeadsignFromLabel (label (make_item e v p))
              \<and> (vd_label descriptor = Some (ascii ''12-Lagiewnicka'')
                   \<longrightarrow> headsign (make_item e v p) = Some (ascii ''Lagiewnicka''))"
    if "\<not> truthy_str (vp_headsign v)" "\<not> truthy_str (trip_tripHeadsign attribs)"
      "\<not> truthy_str (trip_trip_headsign attribs)" "\<not> truthy_str (trip_headsign attribs)"
      "\<not> truthy_str (trip_tripDestination attribs)" "\<not> truthy_str (trip_destination attribs)"
  proof -
    have h: "headsign (make_item e v p) = deriveHeadsignFromLabel (label (make_item e v p))"
      using hs explicit_headsign_none [OF that] by simp
    have "trim (ascii ''12-Lagiewnicka'') = ascii ''12-Lagiewnicka''"
      by (simp add: ascii_def trim_def is_space_def)
    then have "label (make_item e v p) = Some (ascii ''12-Lagiewnicka'')"
      if "vd_label descriptor = Some (ascii ''12-Lagiewnicka'')"
      using that lb by (simp add: truthy_str_def ascii_def)
    then show ?thesis
      using h deriveHeadsignFromLabel_example by simp
  qed
  have first: "truthy_str (explicit_headsign v attribs)
      \<and> headsign (make_item e v p) = map_option trim (explicit_headsign v attribs)"
    if "truthy_str (explicit_headsign v attribs)"
    using hs that by simp
  have e1: "headsign (make_item e v p) = map_option trim (vp_headsign v)"
    if "truthy_str (vp_headsign v)"
    using first explicit_headsign_first(1) [OF that, of attribs] that by simp
  have e2: "headsign (make_item e v p) = map_option trim (trip_tripHeadsign attribs)"
    if "\<not> truthy_str (vp_headsign v)" "truthy_str (trip_tripHeadsign attribs)"
    using first explicit_headsign_first(2) [OF that] that by simp
  have e3: "headsign (make_item e v p) = map_option trim (trip_trip_headsign attribs)"
    if "\<not> truthy_str (vp_headsign v)" "\<not> truthy_str (trip_tripHeadsign attribs)"
      "truthy_str (trip_trip_headsign attribs)"
    using first explicit_headsign_first(3) [OF that] that by simp
  have e4: "headsign (make_item e v p) = map_option trim (trip_headsign attribs)"
    if "\<not> truthy_str (vp_headsign v)" "\<not> truthy_str (trip_tripHeadsign attribs)"
      "\<not> truthy_str (trip_trip_headsign attribs)" "truthy_str (trip_headsign attribs)"
    using first explicit_headsign_first(4) [OF that] that by simp
  have e5: "headsign (make_item e v p) = map_option trim (trip_tripDestination attribs)"
    if "\<not> truthy_str (vp_headsign v)" "\<not> truthy_str (trip_tripHeadsign attribs)"
      "\<not> truthy_str (trip_trip_headsign attribs)" "\<not> truthy_str (trip_headsign attribs)"
      "truthy_str (trip_tripDestination attribs)"
    using first explicit_headsign_first(5) [OF that] that by simp
  have e6: "headsign (make_item e v p) = map_option trim (trip_destination attribs)"
    if "\<not> truthy_str (vp_headsign v)" "\<not> truthy_str (trip_tripHeadsign attribs)"
      "\<not> truthy_str (trip_trip_headsign attribs)" "\<not> truthy_str (trip_headsign attribs)"
      "\<not> truthy_str (trip_tripDestination attribs)" "truthy_str (trip_destination attribs)"
    using first explicit_headsign_first(6) [OF that] that by simp
  show ?thesis
    using deriveHeadsignFromLabel_example positive single negative
      deriveHeadsignFromLabel_None sound lb none e1 e2 e3 e4 e5 e6
    by (intro conjI impI) blast+
qed

text \<open>
  The vehicle of the example has the label \<open>12-Lagiewnicka\<close> and no headsign field.
  With \<^verbatim>\<open>vehicle.headsign\<close> set to \<open>Retkinia\<close> between blanks that field wins;
  with \<^verbatim>\<open>vehicle.headsign\<close> the empty string and the trip's \<^verbatim>\<open>destination\<close>
  set to \<open>Chojny\<close>, the destination is taken. The labels \<open>7-Dworzec\<close> and
  \<open>A -> B\<close> give \<open>Dworzec\<close> and \<open>B\<close>, the label \<open>A---B\<close> gives \<open>-B\<close>, the
  label \<open>Zajezdnia\<close> gives nothing.
\<close>

theorem headsign_fallback_witness:
  "example_trip = (case vp_trip example_vehicle of None \<Rightarrow> empty_trip | Some t \<Rightarrow> t)
   \<and> example_descriptor
       = (case vp_vehicle example_vehicle of None \<Rightarrow> empty_descriptor | Some d \<Rightarrow> d)
   \<and> vd_label example_descriptor = Some (ascii ''12-Lagiewnicka'')
   \<and> \<not> truthy_str (vp_headsign example_vehicle)
   \<and> \<not> truthy_str (trip_tripHeadsign example_trip)
   \<and> \<not> truthy_str (trip_trip_headsign example_trip)
   \<and> \<not> truthy_str (trip_headsign example_trip)
   \<and> \<not> truthy_str (trip_tripDestination example_trip)
   \<and> \<not> truthy_str (trip_destination example_trip)
   \<and> label (make_item example_entity example_vehicle example_position)
       = Some (ascii ''12-Lagiewnicka'')
   \<and> headsign (make_item example_entity example_vehicle example_position)
       = Some (ascii ''Lagiewnicka'')
   \<and> truthy_str (vp_headsign signed_vehicle)
   \<and> headsign (make_item example_entity signed_vehicle example_position)
       = Some (ascii ''Retkinia'')
   \<and> \<not> truthy_str (vp_headsign destination_vehicle)
   \<and> truthy_str (trip_destination (example_trip \<lparr> trip_destination := Some (ascii ''Chojny'') \<rparr>))
   \<and> headsign (make_item example_entity destination_vehicle example_position)
       = Some (ascii ''Chojny'')
   \<and> deriveHeadsignFromLabel (Some (ascii ''7-Dworzec'')) = Some (ascii ''Dworzec'')
   \<and> deriveHeadsignFromLabel (Some (ascii ''A -> B'')) = Some (ascii ''B'')
   \<and> list_all (\<lambda>c. \<not> is_line_terminator c) (trim (ascii ''A---B''))
   \<and> text_after_first_separator (trim (ascii ''A---B'')) = Some (ascii ''-B'')
   \<and> deriveHeadsignFromLabel (Some (ascii ''A---B'')) = Some (ascii ''-B'')
   \<and> deriveHeadsignFromLabel (Some (ascii ''Zajezdnia'')) = None"
proof -
  let ?dest = "example_trip \<lparr> trip_destination := Some (ascii ''Chojny'') \<rparr>"
  have a: "example_trip = (case vp_trip example_vehicle of None \<Rightarrow> empty_trip | Some t \<Rightarrow> t)"
    and a': "example_trip = (case vp_trip signed_vehicle of None \<Rightarrow> empty_trip | Some t \<Rightarrow> t)"
    and a'': "?dest = (case vp_trip destination_vehicle of None \<Rightarrow> empty_trip | Some t \<Rightarrow> t)"
    by (simp_all add: example_vehicle_def signed_vehicle_def destination_vehicle_def)
  have b: "example_descriptor
       = (case vp_vehicle example_vehicle of None \<Rightarrow> empty_descriptor | Some d \<Rightarrow> d)"
    and b': "example_descriptor
       = (case vp_vehicle signed_vehicle of None \<Rightarrow> empty_descriptor | Some d \<Rightarrow> d)"
    and b'': "example_descriptor
       = (case vp_vehicle destination_vehicle of None \<Rightarrow> empty_descriptor | Some d \<Rightarrow> d)"
    by (simp_all add: example_vehicle_def signed_vehicle_def destination_vehicle_def)
  have fields: "vd_label example_descriptor = Some (ascii ''12-Lagiewnicka'')"
    "vp_headsign example_vehicle = None" "trip_tripHeadsign example_trip = None"
    "trip_trip_headsign example_trip = None" "trip_headsign example_trip = None"
    "trip_tripDestination example_trip = None" "trip_destination example_trip = None"
    "vp_headsign signed_vehicle = Some (ascii '' Retkinia '')"
    "vp_headsign destination_vehicle = Some []"
    "trip_tripHeadsign ?dest = None" "trip_trip_headsign ?dest = None"
    "trip_headsign ?dest = None" "trip_tripDestination ?dest = None"
    "trip_destination ?dest = Some (ascii ''Chojny'')"
    by (simp_all add: example_descriptor_def example_vehicle_def example_trip_def
          signed_vehicle_def destination_vehicle_def)
  have t: "trim (ascii '' Retkinia '') = ascii ''Retkinia''"
    "trim (ascii ''Chojny'') = ascii ''Chojny''"
    "trim (ascii ''12-Lagiewnicka'') = ascii ''12-Lagiewnicka''"
    by (simp_all add: ascii_def trim_def is_space_def)
  have tr: "truthy_str (Some (ascii '' Retkinia ''))" "truthy_str (Some (ascii ''Chojny''))"
    "truthy_str (Some (ascii ''12-Lagiewnicka''))" "\<not> truthy_str (Some [])"
    "\<not> truthy_str None"
    by (simp_all add: truthy_str_def ascii_def)
  have l1: "trim (ascii ''7-Dworzec'') = ascii ''7'' @ ascii ''-'' @ [] @ ascii ''Dworzec''"
    and l2: "trim (ascii ''A -> B'') = ascii ''A '' @ ascii ''->'' @ ascii '' '' @ ascii ''B''"
    and l3: "trim (ascii ''Zajezdnia'') = ascii ''Zajezdnia''"
    by (simp_all add: ascii_def trim_def is_space_def)
  have c1: "(\<forall>c\<in>set (ascii ''7''). \<not> is_separator c) \<and> ascii ''-'' \<noteq> []
      \<and> length (ascii ''-'') \<le> 2 \<and> (\<forall>c\<in>set (ascii ''-''). is_separator c)
      \<and> (\<forall>c\<in>set []. is_space c) \<and> ascii ''Dworzec'' \<noteq> []
      \<and> \<not> is_space (hd (ascii ''Dworzec'')) \<and> \<not> is_separator (hd (ascii ''Dworzec''))
      \<and> (\<forall>c\<in>set (ascii ''Dworzec''). \<not> is_line_terminator c)"
    by (simp add: ascii_def is_separator_def is_space_def is_line_terminator_def)
  have c2: "(\<forall>c\<in>set (ascii ''A ''). \<not> is_separator c) \<and> ascii ''->'' \<noteq> []
      \<and> length (ascii ''->'') \<le> 2 \<and> (\<forall>c\<in>set (ascii ''->''). is_separator c)
      \<and> (\<forall>c\<in>set (ascii '' ''). is_space c) \<and> ascii ''B'' \<noteq> []
      \<and> \<not> is_space (hd (ascii ''B'')) \<and> \<not> is_separator (hd (ascii ''B''))
      \<and> (\<forall>c\<in>set (ascii ''B''). \<not> is_line_terminator c)"
    by (simp add: ascii_def is_separator_def is_space_def is_line_terminator_def)
  have c3: "\<forall>c\<in>set (trim (ascii ''Zajezdnia'')). \<not> is_separator c"
    unfolding l3 by (simp add: ascii_def is_separator_def)
  note w1 = headsign_fallback [OF a b, of example_entity example_position]
  note w2 = headsign_fallback [OF a' b', of example_entity example_position]
  note w3 = headsign_fallback [OF a'' b'', of example_entity example_position]
  note positive = w1 [THEN conjunct2, THEN conjunct1, rule_format]
  note single = w1 [THEN conjunct2, THEN conjunct2, THEN conjunct1, rule_format]
  note negative = w1 [THEN conjunct2, THEN conjunct2, THEN conjunct2, THEN conjunct1, rule_format]
  have l4: "trim (ascii ''A---B'') = ascii ''A---B''"
    by (simp add: ascii_def trim_def is_space_def)
  have c4: "\<forall>c\<in>set (trim (ascii ''A---B'')). \<not> is_line_terminator c"
    unfolding l4 by (simp add: ascii_def is_line_terminator_def)
  have s4: "text_after_first_separator (trim (ascii ''A---B'')) = Some (ascii ''-B'')"
    unfolding l4
    by (simp add: text_after_first_separator_def ascii_def is_separator_def is_space_def)
  have d4: "deriveHeadsignFromLabel (Some (ascii ''A---B'')) = Some (ascii ''-B'')"
    unfolding s4 [symmetric] by (rule single) (use c4 in blast)
  have d1: "deriveHeadsignFromLabel (Some (ascii ''7-Dworzec'')) = Some (ascii ''Dworzec'')"
    by (rule positive [where pre = "ascii ''7''" and seps = "ascii ''-''" and ws = "[]"])
       (use l1 c1 in blast)
  have d2: "deriveHeadsignFromLabel (Some (ascii ''A -> B'')) = Some (ascii ''B'')"
    by (rule positive [where pre = "ascii ''A ''" and seps = "ascii ''->''" and ws = "ascii '' ''"])
       (use l2 c2 in blast)
  have d3: "deriveHeadsignFromLabel (Some (ascii ''Zajezdnia'')) = None"
    by (rule negative) (use c3 in blast)
  from w1 have h1: "label (make_item example_entity example_vehicle example_position)
       = Some (ascii ''12-Lagiewnicka'')"
    "headsign (make_item example_entity example_vehicle example_position)
       = Some (ascii ''Lagiewnicka'')"
    by (simp_all add: fields tr t)
  from w2 have h2: "headsign (make_item example_entity signed_vehicle example_position)
       = Some (ascii ''Retkinia'')"
    by (simp add: fields tr t)
  from w3 have h3: "headsign (make_item example_entity destination_vehicle example_position)
       = Some (ascii ''Chojny'')"
    by (simp add: fields tr t)
  show ?thesis
    using a b d1 d2 d3 d4 c4 s4 h1 h2 h3 by (simp add: fields tr list_all_iff)
qed

section \<open>Decoding: which entities become records\<close>

lemma collect_items_lacking:
  "lacks_coordinates e \<Longrightarrow> collect_items (e # es) acc = collect_items es acc"
  by (auto simp: lacks_coordinates_def split: option.splits)

lemma collect_items_append:
  "collect_items (es1 @ es2) acc = collect_items es2 (collect_items es1 acc)"
  by (induction es1 arbitrary: acc) (simp_all split: option.splits)

lemma collect_items_length:
  "length (collect_items es acc) \<le> length acc + length es"
proof (induction es arbitrary: acc)
  case Nil
  then show ?case by simp
next
  case (Cons e es)
  have "length (collect_items es (acc @ [x])) \<le> Suc (length acc + length es)" for x
    using Cons.IH [of "acc @ [x]"] by simp
  moreover have "length (collect_items es acc) \<le> Suc (length acc + length es)"
    using Cons.IH [of acc] by simp
  ultimately show ?case by (simp split: option.splits)
qed

lemma make_item_coordinates: "lat (make_item e v p) = latitude p" "lon (make_item e v p) = longitude p"
  by (simp_all add: make_item_def Let_def)

lemma collect_items_coordinates:
  "\<forall>it\<in>set acc. has_coordinates it \<Longrightarrow> \<forall>it\<in>set (collect_items es acc). has_coordinates it"
proof (induction es arbitrary: acc)
  case Nil
  then show ?case by simp
next
  case (Cons e es)
  have keep: "\<forall>it\<in>set (collect_items es (acc @ [make_item e v p])). has_coordinates it"
    if "latitude p \<noteq> None" "longitude p \<noteq> None" for v p
  proof (rule Cons.IH)
    show "\<forall>it\<in>set (acc @ [make_item e v p]). has_coordinates it"
      using Cons.prems that by (simp add: has_coordinates_def make_item_coordinates)
  qed
  have skip: "\<forall>it\<in>set (collect_items es acc). has_coordinates it"
    using Cons.prems by (rule Cons.IH)
  show ?case
  proof (cases "lacks_coordinates e")
    case True
    then show ?thesis using skip by (simp only: collect_items_lacking)
  next
    case False
    then obtain v p where "entity_vehicle e = Some v" "vp_position v = Some p"
      "latitude p \<noteq> None" "longitude p \<noteq> None"
      by (auto simp: lacks_coordinates_def split: option.splits)
    then show ?thesis using keep [of p v] by auto
  qed
qed

lemma run_update_coordinates:
  assumes "\<forall>it\<in>set (vehicles s). has_coordinates it"
  shows "\<forall>it\<in>set (vehicles (run_update P u now s)). has_coordinates it"
proof (cases "fetch_items P u")
  case (Inl err)
  then show ?thesis using assms by (simp add: run_update_def)
next
  case (Inr items)
  then obtain entities where "items = collect_items entities []"
    by (auto simp: fetch_items_def split: upstream.splits if_splits sum.splits)
  then have "\<forall>it\<in>set items. has_coordinates it"
    using collect_items_coordinates [of "[]" entities] by simp
  then show ?thesis using Inr by (simp add: run_update_def)
qed

lemma run_updates_coordinates:
  "\<forall>it\<in>set (vehicles s). has_coordinates it \<Longrightarrow>
   \<forall>it\<in>set (vehicles (run_updates P evs s)). has_coordinates it"
proof (induction evs arbitrary: s)
  case Nil
  then show ?case by simp
next
  case (Cons ev evs)
  obtain u now where ev: "ev = (u, now)" by (cases ev)
  have "\<forall>it\<in>set (vehicles (refresh P u now s)). has_coordinates it"
    using run_update_coordinates [OF Cons.prems] by (simp add: refresh_def)
  from Cons.IH [OF this] show ?case by (simp add: ev)
qed

lemma collect_items_example: "collect_items example_entities [] = [example_item]"
  using make_item_example
  by (simp add: entity_without_position_def example_entities_def)
     (simp add: example_entity_def example_vehicle_def example_position_def)

lemma refresh_example:
  "refresh example_platform example_upstream 5 (initial_state example_platform) = example_state"
  by (simp add: refresh_def run_update_def fetch_items_def example_upstream_def
      collect_items_example example_platform_def initial_state_def example_state_def
      computeEtag_def ascii_def)

lemma refresh_later:
  "refresh example_platform example_upstream 7 example_state = later_state"
  by (simp add: refresh_def run_update_def fetch_items_def example_upstream_def
      collect_items_example example_platform_def later_state_def example_state_def
      computeEtag_def ascii_def)

text \<open>
  Claim C8. An entity that lacks a vehicle, a position, a latitude or a longitude
  contributes nothing: the records of a feed are those of the feed without it. The
  records are at most as many as the entities, every record has both coordinates, and so
  has every record of the snapshot after any sequence of refreshes from the initial
  state.
\<close>

theorem decode_filtering:
  "(lacks_coordinates e \<longrightarrow> collect_items (es1 @ e # es2) [] = collect_items (es1 @ es2) [])
   \<and> length (collect_items es []) \<le> length es
   \<and> (\<forall>it\<in>set (collect_items es []). has_coordinates it)
   \<and> (\<forall>it\<in>set (vehicles (run_updates P evs (initial_state P))). has_coordinates it)"
proof -
  have "collect_items (es1 @ e # es2) [] = collect_items (es1 @ es2) []" if "lacks_coordinates e"
    using that by (simp only: collect_items_append collect_items_lacking)
  moreover have "length (collect_items es []) \<le> length es"
    using collect_items_length [of es "[]"] by simp
  moreover have "\<forall>it\<in>set (collect_items es []). has_coordinates it"
    by (rule collect_items_coordinates) simp
  moreover have "\<forall>it\<in>set (vehicles (run_updates P evs (initial_state P))). has_coordinates it"
    by (rule run_updates_coordinates) (simp add: initial_state_def)
  ultimately show ?thesis by blast
qed

text \<open>
  The decoded example feed has an entity without a position and a complete one; the
  snapshot after one refresh holds the one record.
\<close>

theorem decode_filtering_witness:
  "lacks_coordinates entity_without_position
   \<and> collect_items ([] @ entity_without_position # [example_entity]) []
       = collect_items ([] @ [example_entity]) []
   \<and> collect_items example_entities [] = [example_item]
   \<and> length (collect_items example_entities []) \<le> length example_entities
   \<and> vehicles (run_updates example_platform [(example_upstream, 5)]
        (initial_state example_platform)) = [example_item]
   \<and> has_coordinates example_item"
proof -
  have a: "lacks_coordinates entity_without_position"
    by (simp add: lacks_coordinates_def entity_without_position_def)
  have b: "vehicles (run_updates example_platform [(example_upstream, 5)]
        (initial_state example_platform)) = [example_item]"
    by (simp add: refresh_example example_state_def)
  show ?thesis
    using decode_filtering [of entity_without_position "[]" "[example_entity]"
        example_entities example_platform "[(example_upstream, 5)]"]
      a b collect_items_example
    by (simp del: collect_items.simps run_updates.simps)
qed

lemma emitted_fields:
  assumes "entity_vehicle e = Some v" and "vp_position v = Some p"
    and "collect_items [e] [] = [it]"
  shows "(pos_bearing p = Some (Num 0) \<longrightarrow> bearing it = None)
       \<and> (pos_speed p = Some (Num 0) \<longrightarrow> speed it = None)
       \<and> (vp_timestamp v = Some (AsNumber (Num 0)) \<longrightarrow> timestamp it = None)
       \<and> (\<forall>k. vp_timestamp v = Some (AsLong k) \<longrightarrow> timestamp it = Some (Num (real k * 1000)))
       \<and> (\<forall>t. vp_trip v = Some t \<and> trip_directionId t = Own (Some (Num 0))
              \<longrightarrow> directionId it = Some (Num 0))
       \<and> (\<forall>t. vp_trip v = Some t \<and> prop_get (trip_directionId t) = None
                \<and> trip_direction_id t = Own (Some (Num 0))
              \<longrightarrow> directionId it = Some (Num 0))"
proof -
  from assms have it: "it = make_item e v p"
    by (simp split: if_splits)
  show ?thesis
    unfolding it by (simp add: make_item_def Let_def or_num_def nullish_def)
qed

text \<open>
  Claim C10. The claim has a timestamp of 0 emitted as \<open>None\<close> (\<^verbatim>\<open>null\<close>). The
  decoder hands the timestamp out as a \<^verbatim>\<open>Long\<close> object, which is truthy also when it
  holds 0, so the test \<^verbatim>\<open>vehicle.timestamp ? ... : null\<close> takes its first branch: the
  record of the example vehicle, whose timestamp is the \<^verbatim>\<open>Long\<close> 0, carries the
  timestamp 0. Its bearing and speed of 0 are emitted as \<open>None\<close> and its own
  \<^verbatim>\<open>directionId\<close> of 0 stays 0, as the claim says; so does a timestamp that is the
  plain number 0.
\<close>

theorem zero_timestamp_emitted:
  "vp_timestamp example_vehicle = Some (AsLong 0)
   \<and> collect_items [example_entity] [] = [make_item example_entity example_vehicle example_position]
   \<and> timestamp (make_item example_entity example_vehicle example_position) = Some (Num 0)
   \<and> timestamp (make_item example_entity example_vehicle example_position) \<noteq> None
   \<and> pos_bearing example_position = Some (Num 0)
   \<and> bearing (make_item example_entity example_vehicle example_position) = None
   \<and> pos_speed example_position = Some (Num 0)
   \<and> speed (make_item example_entity example_vehicle example_position) = None
   \<and> trip_directionId example_trip = Own (Some (Num 0))
   \<and> directionId (make_item example_entity example_vehicle example_position) = Some (Num 0)
   \<and> directionId (make_item snake_case_entity snake_case_vehicle example_position) = Some (Num 0)
   \<and> vp_timestamp number_timestamp_vehicle = Some (AsNumber (Num 0))
   \<and> timestamp (make_item example_entity number_timestamp_vehicle example_position) = None"
proof -
  have a: "collect_items [example_entity] []
      = [make_item example_entity example_vehicle example_position]"
    by (simp add: example_entity_def example_vehicle_def) (simp add: example_position_def)
  have b: "directionId (make_item snake_case_entity snake_case_vehicle example_position)
      = Some (Num 0)"
    by (simp add: make_item_def Let_def nullish_def snake_case_vehicle_def example_vehicle_def)
  have c: "timestamp (make_item example_entity number_timestamp_vehicle example_position) = None"
    by (simp add: make_item_def Let_def number_timestamp_vehicle_def)
  have d: "vp_timestamp example_vehicle = Some (AsLong 0)"
    "pos_bearing example_position = Some (Num 0)" "pos_speed example_position = Some (Num 0)"
    "trip_directionId example_trip = Own (Some (Num 0))"
    "vp_timestamp number_timestamp_vehicle = Some (AsNumber (Num 0))"
    by (simp_all add: example_vehicle_def example_position_def example_trip_def
          number_timestamp_vehicle_def)
  have e: "timestamp (make_item example_entity example_vehicle example_position) = Some (Num 0)"
    "bearing (make_item example_entity example_vehicle example_position) = None"
    "speed (make_item example_entity example_vehicle example_position) = None"
    "directionId (make_item example_entity example_vehicle example_position) = Some (Num 0)"
    by (simp_all add: make_item_example example_item_def)
  show ?thesis
    using a b c d e by (simp del: collect_items.simps)
qed

section \<open>Refresh: commit and failure\<close>

lemma fetch_items_failures:
  "fetch_items P (FetchRejects err) = Inl err"
  "fetch_items P (Responds False st txt buffer)
     = Inl (JsError (ascii ''Error'') (ascii ''HTTP '' @ number_to_string P st @ ascii '' '' @ txt))"
  "fetch_items P (Responds True st txt (Inl err)) = Inl err"
  "decode_feed P raw = Inl err \<Longrightarrow> fetch_items P (Responds True st txt (Inr raw)) = Inl err"
  by (simp_all add: fetch_items_def)

lemma run_update_failure:
  "fetch_items P u = Inl err \<Longrightarrow>
   run_update P u now s = s\<lparr> lastUpdateError := Some err,
                             consecutiveFailures := consecutiveFailures s + 1 \<rparr>"
  by (simp add: run_update_def)

lemma positions_response_cong:
  assumes "vehiclesJson a = vehiclesJson b" "vehiclesEtag a = vehiclesEtag b"
    "lastUpdatedAtMs a = lastUpdatedAtMs b"
  shows "status (positions_response P cfg now inm a) = status (positions_response P cfg now inm b)"
    and "body (positions_response P cfg now inm a) = body (positions_response P cfg now inm b)"
    and "headers (positions_response P cfg now inm a) ETag = headers (positions_response P cfg now inm b) ETag"
  using assms
  by (simp_all add: positions_response_def Let_def currentEtag_def isStale_def stalenessMs_def
        split: option.splits)

text \<open>
  Claim C5. A refresh that fails (the fetch rejects, as on a network error or on the
  abort by the timeout; the response is not ok; reading the body fails; the decoder
  throws) stores the error and adds one to \<open>consecutiveFailures\<close>; the records, their
  serialised form, the ETag and the time of the last update stay as they were, and
  \<open>/positions\<close> answers with the same status and body as before.
\<close>

theorem failed_refresh_keeps_snapshot:
  assumes "u = FetchRejects err
         \<or> (\<exists>st txt buffer. u = Responds False st txt buffer
               \<and> err = JsError (ascii ''Error'')
                         (ascii ''HTTP '' @ number_to_string P st @ ascii '' '' @ txt))
         \<or> (\<exists>st txt. u = Responds True st txt (Inl err))
         \<or> (\<exists>st txt raw. u = Responds True st txt (Inr raw) \<and> decode_feed P raw = Inl err)"
  shows "refresh P u now s = s\<lparr> lastUpdateError := Some err,
                                consecutiveFailures := consecutiveFailures s + 1,
                                inFlightUpdate := None \<rparr>
       \<and> vehicles (refresh P u now s) = vehicles s
       \<and> vehiclesJson (refresh P u now s) = vehiclesJson s
       \<and> vehiclesEtag (refresh P u now s) = vehiclesEtag s
       \<and> lastUpdatedAtMs (refresh P u now s) = lastUpdatedAtMs s
       \<and> (\<forall>cfg t inm.
            status (positions_response P cfg t inm (refresh P u now s))
              = status (positions_response P cfg t inm s)
          \<and> body (positions_response P cfg t inm (refresh P u now s))
              = body (positions_response P cfg t inm s))"
proof -
  from assms have f: "fetch_items P u = Inl err"
    by (auto simp: fetch_items_failures)
  have eq: "refresh P u now s = s\<lparr> lastUpdateError := Some err,
                                consecutiveFailures := consecutiveFailures s + 1,
                                inFlightUpdate := None \<rparr>"
    by (simp add: refresh_def run_update_failure [OF f])
  have frame: "vehiclesJson (refresh P u now s) = vehiclesJson s"
    "vehiclesEtag (refresh P u now s) = vehiclesEtag s"
    "lastUpdatedAtMs (refresh P u now s) = lastUpdatedAtMs s"
    "vehicles (refresh P u now s) = vehicles s"
    by (simp_all add: eq)
  show ?thesis
    using eq frame positions_response_cong(1,2) [OF frame(1,2,3)] by simp
qed

text \<open>A timeout and a buffer that does not decode, each after the example refresh.\<close>

theorem failed_refresh_keeps_snapshot_witness:
  "refresh example_platform (FetchRejects example_error) 9 example_state
     = example_state \<lparr> lastUpdateError := Some example_error, consecutiveFailures := 1 \<rparr>
   \<and> decode_feed example_platform []
       = Inl (JsError (ascii ''Error'') (ascii ''index out of range''))
   \<and> vehicles (refresh example_platform (Responds True 200 (ascii ''OK'') (Inr [])) 9 example_state)
       = [example_item]
   \<and> lastUpdatedAtMs (refresh example_platform (Responds True 200 (ascii ''OK'') (Inr [])) 9
        example_state) = 5
   \<and> consecutiveFailures (refresh example_platform (Responds True 200 (ascii ''OK'') (Inr [])) 9
        example_state) = 1"
proof -
  have d: "decode_feed example_platform []
       = Inl (JsError (ascii ''Error'') (ascii ''index out of range''))"
    by (simp add: example_platform_def)
  show ?thesis
    using failed_refresh_keeps_snapshot [of "FetchRejects example_error" example_error
        example_platform 9 example_state]
      failed_refresh_keeps_snapshot [of "Responds True 200 (ascii ''OK'') (Inr [])"
        "JsError (ascii ''Error'') (ascii ''index out of range'')" example_platform 9 example_state]
      d
    by (simp add: example_state_def)
qed

text \<open>
  Claim C6. A refresh whose response is ok and decodes replaces the snapshot: the
  records are those of the decoded feed, the serialised form and the ETag are computed
  from them, \<open>lastUpdatedAtMs\<close> is the current time, \<open>lastUpdateError\<close> is cleared and
  \<open>consecutiveFailures\<close> is 0.
\<close>

theorem successful_refresh_commits:
  assumes "u = Responds True st txt (Inr raw)" and "decode_feed P raw = Inr entities"
  shows "refresh P u now s =
           s\<lparr> vehicles := collect_items entities [],
              vehiclesJson := json_stringify P (collect_items entities []),
              vehiclesEtag := computeEtag P now (json_stringify P (collect_items entities [])),
              lastUpdatedAtMs := now,
              lastUpdateError := None,
              consecutiveFailures := 0,
              inFlightUpdate := None \<rparr>"
  using assms by (simp add: refresh_def run_update_def fetch_items_def)

text \<open>A first refresh that times out, then the example refresh at time 5.\<close>

theorem successful_refresh_commits_witness:
  "example_upstream = Responds True 200 (ascii ''OK'') (Inr [10])
   \<and> decode_feed example_platform [10] = Inr example_entities
   \<and> consecutiveFailures (refresh example_platform (FetchRejects example_error) 3
        (initial_state example_platform)) = 1
   \<and> refresh example_platform example_upstream 5
        (refresh example_platform (FetchRejects example_error) 3 (initial_state example_platform))
       = example_state"
proof -
  have a: "example_upstream = Responds True 200 (ascii ''OK'') (Inr [10])"
    by (simp add: example_upstream_def)
  have b: "decode_feed example_platform [10] = Inr example_entities"
    by (simp add: example_platform_def)
  have c: "refresh example_platform (FetchRejects example_error) 3 (initial_state example_platform)
      = (initial_state example_platform) \<lparr> lastUpdateError := Some example_error,
           consecutiveFailures := 1 \<rparr>"
    by (simp add: refresh_def run_update_def fetch_items_def initial_state_def)
  show ?thesis
    using successful_refresh_commits [OF a b, of 5
        "refresh example_platform (FetchRejects example_error) 3 (initial_state example_platform)"]
      a b
    by (simp add: c collect_items_example)
       (simp add: initial_state_def example_state_def example_platform_def computeEtag_def ascii_def)
qed

section \<open>One fetch for all callers of a pending refresh\<close>

lemma refresh_calls_pending:
  "inFlightUpdate (server rt) = Some p \<Longrightarrow>
   refresh_calls cs rt = rt\<lparr> awaiting := awaiting rt @ map (\<lambda>c. (c, Attached p)) cs \<rparr>"
proof (induction cs arbitrary: rt)
  case Nil
  then show ?case by simp
next
  case (Cons c cs)
  let ?rt = "refresh_call c rt"
  from Cons.prems have step: "?rt = rt\<lparr> awaiting := awaiting rt @ [(c, Attached p)] \<rparr>"
    by (simp add: refresh_call_def)
  then have "inFlightUpdate (server ?rt) = Some p" using Cons.prems by simp
  from Cons.IH [OF this] show ?case by (simp add: step)
qed

lemma refresh_ignores_inFlightUpdate:
  "refresh P u now (s\<lparr> inFlightUpdate := q \<rparr>) = refresh P u now s"
  by (simp add: refresh_def run_update_def split: sum.splits)

text \<open>
  From an idle server, a call of \<^verbatim>\<open>refresh\<close> followed by any further calls before the
  update has finished calls \<^verbatim>\<open>fetchImpl\<close> exactly once, and every call waits for the
  one promise of that update. When the update finishes all calls return: the starting
  call with the new \<open>vehicles\<close>, every attached call with \<^verbatim>\<open>undefined\<close>.
\<close>

lemma refresh_calls_one_fetch:
  assumes "inFlightUpdate (server rt) = None" and "awaiting rt = []"
  shows "fetchCalls (refresh_calls (c # cs) rt) = Suc (fetchCalls rt)
       \<and> awaiting (refresh_calls (c # cs) rt)
           = (c, Started (fetchCalls rt)) # map (\<lambda>c'. (c', Attached (fetchCalls rt))) cs
       \<and> inFlightUpdate (server (refresh_calls (c # cs) rt)) = Some (fetchCalls rt)
       \<and> fetchCalls (settle P u now (refresh_calls (c # cs) rt)) = Suc (fetchCalls rt)
       \<and> server (settle P u now (refresh_calls (c # cs) rt)) = refresh P u now (server rt)
       \<and> awaiting (settle P u now (refresh_calls (c # cs) rt)) = []
       \<and> resumed (settle P u now (refresh_calls (c # cs) rt))
           = resumed rt @ (c, Some (vehicles (refresh P u now (server rt))))
               # map (\<lambda>c'. (c', None)) cs"
proof -
  let ?p = "fetchCalls rt"
  let ?rt0 = "refresh_call c rt"
  let ?w = "(c, Started ?p) # map (\<lambda>c'. (c', Attached ?p)) cs"
  have rt0: "?rt0 = rt\<lparr> server := (server rt)\<lparr> inFlightUpdate := Some ?p \<rparr>,
                        fetchCalls := Suc ?p, awaiting := [(c, Started ?p)] \<rparr>"
    using assms by (simp add: refresh_call_def Let_def)
  then have "inFlightUpdate (server ?rt0) = Some ?p" by simp
  from refresh_calls_pending [OF this, of cs]
  have rt1: "refresh_calls (c # cs) rt =
      rt\<lparr> server := (server rt)\<lparr> inFlightUpdate := Some ?p \<rparr>,
          fetchCalls := Suc ?p, awaiting := ?w \<rparr>"
    by (simp add: rt0)
  have f1: "filter (\<lambda>(c', w). promise_of w \<noteq> ?p) ?w = []"
    by (simp add: filter_empty_conv)
  have f2: "filter (\<lambda>(c', w). promise_of w = ?p) ?w = ?w"
    by (simp add: filter_id_conv)
  have m: "map (\<lambda>(c', w). (c', resolved_value s' w)) ?w
      = (c, Some (vehicles s')) # map (\<lambda>c'. (c', None)) cs" for s'
    by (simp add: comp_def)
  have rt2: "settle P u now (refresh_calls (c # cs) rt) =
      rt\<lparr> server := refresh P u now (server rt), fetchCalls := Suc ?p, awaiting := [],
          resumed := resumed rt @ (c, Some (vehicles (refresh P u now (server rt))))
               # map (\<lambda>c'. (c', None)) cs \<rparr>"
    unfolding rt1 settle_def
    using f1 f2 m [of "refresh P u now (server rt)"]
    by (simp add: Let_def refresh_ignores_inFlightUpdate del: filter.simps list.map)
  show ?thesis
    unfolding rt2 unfolding rt1 by simp
qed

text \<open>
  Claim C3. Two callers call \<^verbatim>\<open>refresh()\<close> on the fresh server before the update
  has finished, and the upstream answers with the example feed. \<^verbatim>\<open>fetchImpl\<close> is
  called once, as the claim says, and both promises are fulfilled when that one update
  finishes. But the callers do not get the same result: the starting call is fulfilled
  with the new snapshot, the attached call with \<^verbatim>\<open>undefined\<close> (\<open>None\<close>).
\<close>

theorem attached_refresh_resolves_undefined:
  "fetchCalls (refresh_calls [1, 2] example_runtime) = 1
   \<and> awaiting (refresh_calls [1, 2] example_runtime) = [(1, Started 0), (2, Attached 0)]
   \<and> fetchCalls (settle example_platform example_upstream 5
        (refresh_calls [1, 2] example_runtime)) = 1
   \<and> vehicles (server (settle example_platform example_upstream 5
        (refresh_calls [1, 2] example_runtime))) = [example_item]
   \<and> resumed (settle example_platform example_upstream 5
        (refresh_calls [1, 2] example_runtime)) = [(1, Some [example_item]), (2, None)]
   \<and> Some [example_item] \<noteq> (None :: item list option)"
proof -
  have a: "inFlightUpdate (server example_runtime) = None"
    and b: "awaiting example_runtime = []"
    and c: "fetchCalls example_runtime = 0" and d: "resumed example_runtime = []"
    and e: "server example_runtime = initial_state example_platform"
    by (simp_all add: example_runtime_def initial_state_def)
  have v: "vehicles example_state = [example_item]"
    by (simp add: example_state_def)
  show ?thesis
    using refresh_calls_one_fetch [OF a b, of 1 "[2]" example_platform example_upstream 5]
    by (simp add: c d e v refresh_example del: refresh_calls.simps)
qed

section \<open>The responses of \<^verbatim>\<open>GET /positions\<close>\<close>

lemma currentEtag_idem:
  "(if vehiclesEtag s \<noteq> [] then vehiclesEtag s else currentEtag P s) = currentEtag P s"
  by (simp add: currentEtag_def)

lemma positions_response_not_modified:
  "\<not> isStale cfg now s \<Longrightarrow> if_none_match = Some (currentEtag P s) \<Longrightarrow>
   status (positions_response P cfg now if_none_match s) = 304
   \<and> body (positions_response P cfg now if_none_match s) = None"
  by (simp add: positions_response_def Let_def currentEtag_idem)

lemma positions_response_full:
  "isStale cfg now s \<or> if_none_match \<noteq> Some (currentEtag P s) \<Longrightarrow>
   status (positions_response P cfg now if_none_match s) = (if isStale cfg now s then 503 else 200)
   \<and> body (positions_response P cfg now if_none_match s) = Some (vehiclesJson s)"
  by (auto simp: positions_response_def Let_def currentEtag_idem)

lemma get_positions_cached:
  "vehicles s \<noteq> [] \<Longrightarrow> inFlightUpdate s = None \<Longrightarrow>
   get_positions P cfg u t now inm s = (s, positions_response P cfg now inm s)"
  by (simp add: get_positions_def ensureLatest_def)

lemma currentEtag_example:
  "currentEtag example_platform example_state = [34, 53, 45] @ ascii ''[{}]'' @ [34]"
  "currentEtag example_platform later_state = [34, 55, 45] @ ascii ''[{}]'' @ [34]"
  by (simp_all add: currentEtag_def example_state_def later_state_def ascii_def)

text \<open>
  Claim C1. The claim has a request answered with 503 and \<open>X-Feed-Stale: true\<close> also
  when no refresh has ever succeeded. On the fresh server whose first fetch times out,
  a request without conditional headers leaves \<open>lastUpdatedAtMs\<close> at 0, and
  \<^verbatim>\<open>getState()\<close> reports the feed as stale; the answer that is sent has status 200
  and no \<open>X-Feed-Stale\<close> header, its body is the empty array.
\<close>

theorem never_refreshed_positions_not_stale:
  "lastUpdatedAtMs (fst (serve_positions example_platform example_config
       (FetchRejects example_error) 5 6 plain_request (initial_state example_platform))) = 0
   \<and> getState_isStale example_config 6 (fst (serve_positions example_platform example_config
       (FetchRejects example_error) 5 6 plain_request (initial_state example_platform)))
   \<and> map_option status (snd (serve_positions example_platform example_config
       (FetchRejects example_error) 5 6 plain_request (initial_state example_platform)))
       = Some 200
   \<and> map_option (\<lambda>r. headers r XFeedStale) (snd (serve_positions example_platform
       example_config (FetchRejects example_error) 5 6 plain_request
       (initial_state example_platform))) = Some None
   \<and> map_option body (snd (serve_positions example_platform example_config
       (FetchRejects example_error) 5 6 plain_request (initial_state example_platform)))
       = Some (Some (ascii ''[]''))"
proof -
  let ?s = "(initial_state example_platform) \<lparr> lastUpdateError := Some example_error,
      consecutiveFailures := 1 \<rparr>"
  let ?r = "positions_response example_platform example_config 6 None ?s"
  have g: "get_positions example_platform example_config (FetchRejects example_error) 5 6
      (req_if_none_match plain_request) (initial_state example_platform) = (?s, ?r)"
    by (simp add: get_positions_def Let_def ensureLatest_def refresh_def run_update_def
          fetch_items_def initial_state_def plain_request_def)
  have r: "status ?r = 200" "body ?r = Some (ascii ''[]'')" "headers ?r XFeedStale = None"
    by (simp_all add: positions_response_def Let_def isStale_def stalenessMs_def
          initial_state_def split: option.splits)
  have l: "headers_legal (headers ?r)"
    by (simp add: positions_response_def Let_def isStale_def stalenessMs_def initial_state_def
          headers_legal_def all_headers_def legal_header_char_def example_platform_def
          computeEtag_def currentEtag_def example_error_def ascii_def)
  have f: "\<not> req_fresh example_platform plain_request ?r"
    by (simp add: req_fresh_def plain_request_def truthy_str_def)
  have "serve_positions example_platform example_config (FetchRejects example_error) 5 6
      plain_request (initial_state example_platform) = (?s, Some ?r)"
    using l f r(2) by (simp add: serve_positions_def g res_send_def)
  then show ?thesis
    using r by (simp add: getState_isStale_def initial_state_def)
qed

text \<open>
  Claim C7. A request whose \<open>If-None-Match\<close> equals the ETag of the snapshot it is
  answered from, when that snapshot is not stale, gets status 304 and no body; that
  snapshot is the one the request found when vehicles are cached and no update is
  pending. The same request answered from any snapshot with another ETag gets a response
  with the serialised snapshot as body.
\<close>

theorem conditional_get:
  assumes "get_positions P cfg u t now (Some e) s = (s1, r1)"
    and "e = currentEtag P s1" and "\<not> isStale cfg now s1"
  shows "status r1 = 304 \<and> body r1 = None
       \<and> (vehicles s \<noteq> [] \<and> inFlightUpdate s = None \<longrightarrow> s1 = s)
       \<and> (\<forall>u' t' now' x s2 r2.
             get_positions P cfg u' t' now' (Some e) x = (s2, r2) \<and> currentEtag P s2 \<noteq> e
             \<longrightarrow> status r2 \<noteq> 304 \<and> body r2 = Some (vehiclesJson s2))"
proof -
  from assms(1) have r: "r1 = positions_response P cfg now (Some e) s1"
    by (auto simp: get_positions_def Let_def)
  have a: "status r1 = 304 \<and> body r1 = None"
    unfolding r using assms(2,3) by (intro positions_response_not_modified) simp_all
  have b: "status r2 \<noteq> 304 \<and> body r2 = Some (vehiclesJson s2)"
    if "get_positions P cfg u' t' now' (Some e) x = (s2, r2)" "currentEtag P s2 \<noteq> e"
    for u' t' now' x s2 r2
  proof -
    from that(1) have "r2 = positions_response P cfg now' (Some e) s2"
      by (auto simp: get_positions_def Let_def)
    then show ?thesis
      using positions_response_full [of cfg now' s2 "Some e" P] that(2) by auto
  qed
  have c: "s1 = s" if "vehicles s \<noteq> []" "inFlightUpdate s = None"
    using assms(1) that by (simp add: get_positions_def ensureLatest_def)
  from a b c show ?thesis by blast
qed

text \<open>
  The ETag of the example snapshot of time 5, sent at time 6, and sent again at time 8
  after the refresh of time 7 has replaced the snapshot.
\<close>

theorem conditional_get_witness:
  "get_positions example_platform example_config example_upstream 5 6
       (Some ([34, 53, 45] @ ascii ''[{}]'' @ [34])) example_state
     = (example_state, positions_response example_platform example_config 6
          (Some ([34, 53, 45] @ ascii ''[{}]'' @ [34])) example_state)
   \<and> [34, 53, 45] @ ascii ''[{}]'' @ [34] = currentEtag example_platform example_state
   \<and> \<not> isStale example_config 6 example_state
   \<and> status (positions_response example_platform example_config 6
        (Some ([34, 53, 45] @ ascii ''[{}]'' @ [34])) example_state) = 304
   \<and> body (positions_response example_platform example_config 6
        (Some ([34, 53, 45] @ ascii ''[{}]'' @ [34])) example_state) = None
   \<and> later_state = refresh example_platform example_upstream 7 example_state
   \<and> currentEtag example_platform later_state \<noteq> [34, 53, 45] @ ascii ''[{}]'' @ [34]
   \<and> body (positions_response example_platform example_config 8
        (Some ([34, 53, 45] @ ascii ''[{}]'' @ [34])) later_state) = Some (ascii ''[{}]'')"
proof -
  let ?e = "[34, 53, 45] @ ascii ''[{}]'' @ [34]"
  have v: "vehicles example_state \<noteq> []" "inFlightUpdate example_state = None"
    and v': "vehicles later_state \<noteq> []" "inFlightUpdate later_state = None"
    by (simp_all add: example_state_def later_state_def)
  have e: "?e = currentEtag example_platform example_state"
    by (simp add: currentEtag_example)
  have e': "currentEtag example_platform later_state \<noteq> ?e"
    by (simp add: currentEtag_example)
  have f: "\<not> isStale example_config 6 example_state"
    by (simp add: isStale_def stalenessMs_def example_state_def example_config_def)
  have j: "vehiclesJson later_state = ascii ''[{}]''"
    by (simp add: later_state_def example_state_def)
  have g: "get_positions example_platform example_config example_upstream 7 8 (Some ?e) later_state
      = (later_state, positions_response example_platform example_config 8 (Some ?e) later_state)"
    by (rule get_positions_cached [OF v'])
  from conditional_get [OF get_positions_cached [OF v,
      of example_platform example_config example_upstream 5 6 "Some ?e"] e f]
  have h: "status (positions_response example_platform example_config 6 (Some ?e) example_state) = 304"
    "body (positions_response example_platform example_config 6 (Some ?e) example_state) = None"
    "body (positions_response example_platform example_config 8 (Some ?e) later_state)
       = Some (vehiclesJson later_state)"
    using g e' by blast+
  show ?thesis
    using h e e' f get_positions_cached [OF v] refresh_later by (simp add: j)
qed

end
